theory Spec2Isabelle
  imports Complex_Main
begin

section \<open>Environment, input and geometry\<close>

text \<open>
  Each of the two source files holds two versions of the game. The model follows the
  first version of \<open>Tapioca/Main.cpp\<close> (textures, the egg with its explosion, the score
  callback and the three scenes) and the first version of \<open>PyoroLike/Main.cpp\<close> (a
  global block vector, blocks with a \<open>collided\<close> flag, a bullet). The second versions
  repeat the same block, projectile and player code with small differences that are
  pointed out where a theorem depends on them.

  Coordinates, speeds and velocities are C++ \<open>double\<close>s. The positions, sizes and
  speeds of the game are small multiples of one half (sizes 40, 50, 70, speeds 3, 8, 10,
  20, gravity 1 or 1.5), and on those the additions and comparisons of doubles are exact,
  so they are modelled as reals. The score callback is different: it divides, subtracts
  and multiplies doubles whose results are not such multiples, so there each operation is
  rounded the way binary64 arithmetic rounds it (section "Double arithmetic of the score").

  \<open>Window::Width()\<close> and \<open>Window::Height()\<close> return integers and are read-only
  parameters of every tick.
\<close>

record Env =
  winW :: int
  winH :: int

text \<open>
  The input source: \<open>down\<close> is "newly pressed this frame", \<open>pressed\<close> is "held".
\<close>

record Input =
  keyZ_down :: bool
  keyLeft_pressed :: bool
  keyRight_pressed :: bool
  keyUp_down :: bool
  keyR_down :: bool

text \<open>
  Modelled from the spec: the rectangle type \<open>RectF\<close> and its \<open>intersects\<close> and
  \<open>topCenter\<close> belong to the game framework, which is not among the source files.
  The spec describes a rectangle as a top-left position with a width and a height, and
  collision as axis-aligned rectangle overlap: two rectangles intersect when their extents
  overlap on both axes. The fields are named \<open>rx\<close>, \<open>ry\<close>, \<open>rw\<close>, \<open>rh\<close> for the
  source's \<open>x\<close>, \<open>y\<close>, \<open>w\<close>, \<open>h\<close>.
\<close>

record RectF =
  rx :: real
  ry :: real
  rw :: real
  rh :: real

text \<open>
  Modelled from the spec: \<open>RectF::intersects\<close>, the overlap test of two axis-aligned
  rectangles (rectangles that only share an edge do not intersect).
\<close>

definition intersects :: "RectF \<Rightarrow> RectF \<Rightarrow> bool" where
  "intersects a b =
     (rx a < rx b + rw b \<and> rx b < rx a + rw a \<and> ry a < ry b + rh b \<and> ry b < ry a + rh a)"

text \<open>
  Modelled from the spec: \<open>RectF::topCenter\<close>, the midpoint of the top edge, one of the
  derived accessors the spec lists.
\<close>

definition topCenter :: "RectF \<Rightarrow> real \<times> real" where
  "topCenter r = (rx r + rw r / 2, ry r)"


section \<open>Double arithmetic of the score\<close>

text \<open>
  An operation on doubles returns the exact result rounded to the nearest binary64 number:
  the nearest multiple of \<open>2^(e - 52)\<close>, where \<open>2^e\<close> is the largest power of two
  not above the magnitude of the result, and of two equally near multiples the even one.
  Below \<open>2^(-1022)\<close> the spacing stays \<open>2^(-1074)\<close>, so the exponent \<open>e\<close> is
  not taken below \<open>-1022\<close>; \<open>expo\<close> searches it from zero, upwards for a number
  of at least one and downwards otherwise, over the exponents binary64 has.

  A result beyond the largest double is infinite in C++ and a large finite number here.
  In the score callback only the product can get that large, and it goes straight into
  the conversion to \<open>int\<close>, which answers the same for both.
\<close>

definition round_half_even :: "real \<Rightarrow> int" where
  "round_half_even v =
     (let f = \<lfloor>v\<rfloor> in
      if v - of_int f < 1 / 2 then f
      else if 1 / 2 < v - of_int f then f + 1
      else if even f then f else f + 1)"

fun expo_up :: "nat \<Rightarrow> int \<Rightarrow> real \<Rightarrow> int" where
  "expo_up 0 e a = e"
| "expo_up (Suc n) e a = (if 2 powi (e + 1) \<le> a then expo_up n (e + 1) a else e)"

fun expo_down :: "nat \<Rightarrow> int \<Rightarrow> real \<Rightarrow> int" where
  "expo_down 0 e a = e"
| "expo_down (Suc n) e a = (if a < 2 powi e then expo_down n (e - 1) a else e)"

definition expo :: "real \<Rightarrow> int" where
  "expo a = (if 1 \<le> a then expo_up 1023 0 a else expo_down 1022 0 a)"

definition binary64 :: "real \<Rightarrow> real" where
  "binary64 v =
     (if v = 0 then 0
      else let q = 2 powi (expo \<bar>v\<bar> - 52) in of_int (round_half_even (v / q)) * q)"

text \<open>
  A double that may fail to be finite is a \<open>real option\<close>: \<open>None\<close> stands for an
  infinity or a NaN, which the callback's argument is when the window height is zero.

  \<open>static_cast<int>\<close> of a double discards the fractional part (rounds toward zero).
  C++ defines it only when the result fits into the 32 bits of an \<open>int\<close>; for every other
  double, infinities and NaN included, the conversion instruction of x86-64 answers the
  smallest \<open>int\<close>, and that is what the model takes. Likewise C++ leaves a signed
  addition that overflows undefined, and the model takes the 32-bit result of the machine
  addition, which wraps around (\<open>int32\<close>). The theorems about the score assume a window
  of positive height and a score far from the largest \<open>int\<close>, where neither case occurs.
\<close>

definition static_cast_int :: "real option \<Rightarrow> int" where
  "static_cast_int x =
     (case x of
        None \<Rightarrow> - 2147483648
      | Some v \<Rightarrow>
          if - 2147483649 < v \<and> v < 2147483648 then (if 0 \<le> v then \<lfloor>v\<rfloor> else \<lceil>v\<rceil>)
          else - 2147483648)"

definition int32 :: "int \<Rightarrow> int" where
  "int32 v = (v + 2147483648) mod 4294967296 - 2147483648"


section \<open>Tapioca: blocks\<close>

definition gravity :: real where
  "gravity = 3 / 2"

definition floorHeight :: real where
  "floorHeight = 80"

definition numBlocksX :: int where
  "numBlocksX = 8"

definition fallingSpeed :: real where
  "fallingSpeed = 3"

definition Block_size :: real where
  "Block_size = 50"

text \<open>
  The class \<open>Block\<close>. The stored callback \<open>hitCallback\<close> is the same closure for every
  block (it is installed right after construction in \<open>Playing::update\<close>), so it is not a
  field of the record: \<open>Block_destroy\<close> below returns the argument the callback receives
  and the caller applies \<open>hitCallback\<close> to the scene data.
\<close>

record Block =
  rect :: RectF
  destroyed :: bool
  moving :: bool
  touchingTop :: bool
  speed :: real

definition Block_new :: "real \<Rightarrow> Block" where
  "Block_new x0 =
     \<lparr> rect = \<lparr> rx = x0, ry = - Block_size, rw = Block_size, rh = Block_size \<rparr>,
       destroyed = False, moving = True, touchingTop = False, speed = 3 \<rparr>"

definition Block_intersects :: "Block \<Rightarrow> RectF \<Rightarrow> bool" where
  "Block_intersects block other = intersects other (rect block)"

text \<open>
  \<open>Block::update\<close> receives a reference to the very vector the block lives in, and
  \<open>willCollide\<close> skips the block whose address is \<open>this\<close>. The vector is a list and an
  address is an index into it: \<open>Block_update e i blocks\<close> runs \<open>blocks[i].update(blocks)\<close>
  and returns the vector after the call. The loop of \<open>willCollide\<close> walks the vector from
  the front; \<open>j\<close> is the index of the element under inspection.
\<close>

fun collide_loop :: "RectF \<Rightarrow> nat \<Rightarrow> nat \<Rightarrow> Block list \<Rightarrow> bool" where
  "collide_loop nextRect i j [] = False"
| "collide_loop nextRect i j (block # rest) =
     (if i \<noteq> j \<and> intersects nextRect (rect block) then True
      else collide_loop nextRect i (Suc j) rest)"

definition Block_willCollide :: "Env \<Rightarrow> nat \<Rightarrow> Block list \<Rightarrow> bool" where
  "Block_willCollide e i blocks =
     (let r = rect (blocks ! i); s = speed (blocks ! i) in
      if ry r + rh r + s > of_int (winH e) - floorHeight then True
      else collide_loop (r\<lparr>ry := ry r + s\<rparr>) i 0 blocks)"

definition Block_update :: "Env \<Rightarrow> nat \<Rightarrow> Block list \<Rightarrow> Block list" where
  "Block_update e i blocks =
     (let blocks1 = blocks[i := (blocks ! i)\<lparr>speed := fallingSpeed\<rparr>];
          b = blocks1 ! i
      in if Block_willCollide e i blocks1 then
           let b1 = (if ry (rect b) \<le> 0 then b\<lparr>touchingTop := True\<rparr> else b)
           in blocks1[i := b1\<lparr>moving := False, speed := 0\<rparr>]
         else
           blocks1[i := b\<lparr>moving := True, rect := (rect b)\<lparr>ry := ry (rect b) + speed b\<rparr>\<rparr>])"

text \<open>
  The loop of \<open>Playing::update\<close> over the blocks: each block is updated in place, in
  stored order, and the loop is left as soon as a block reports \<open>isTouchingTop\<close> (the
  scene then changes to \<open>GameOver\<close>). The first argument lists the indices still to visit;
  the boolean of the result says whether the loop was left that way.
\<close>

fun blocks_loop :: "Env \<Rightarrow> nat list \<Rightarrow> Block list \<Rightarrow> Block list \<times> bool" where
  "blocks_loop e [] blocks = (blocks, False)"
| "blocks_loop e (i # rest) blocks =
     (let blocks' = Block_update e i blocks in
      if touchingTop (blocks' ! i) then (blocks', True) else blocks_loop e rest blocks')"

definition update_blocks :: "Env \<Rightarrow> Block list \<Rightarrow> Block list \<times> bool" where
  "update_blocks e blocks = blocks_loop e [0..<length blocks] blocks"

text \<open>
  The reading of the spec for the same loop: every block is tested against a snapshot of
  the vector taken before the loop starts, and all results are installed together.
\<close>

definition snapshot_update :: "Env \<Rightarrow> Block list \<Rightarrow> Block list" where
  "snapshot_update e blocks = map (\<lambda>i. Block_update e i blocks ! i) [0..<length blocks]"


section \<open>Tapioca: timers and animations\<close>

text \<open>
  Timers measure wall-clock time, which a tick does not see. A timer is represented by
  what its \<open>reachedZero()\<close> answers during the tick; \<open>restart()\<close> makes that answer
  \<open>False\<close>, and the passing of time between two ticks may turn it to \<open>True\<close>. A timer
  built with a positive duration and never started has not reached zero.

  An \<open>Animation\<close> keeps its textures only for drawing, so the record keeps their number
  \<open>ntex\<close> (\<open>texAssets.size()\<close>). \<open>size() - 1\<close> is computed on 64-bit unsigned numbers.
\<close>

record Animation =
  looped :: bool
  ntex :: nat
  timerZero :: bool
  idx :: nat
  started :: bool

definition size_minus_one :: "nat \<Rightarrow> nat" where
  "size_minus_one n = (n + 2 ^ 64 - 1) mod 2 ^ 64"

definition Animation_start :: "Animation \<Rightarrow> Animation" where
  "Animation_start a = a\<lparr>timerZero := False, started := True\<rparr>"

definition Animation_new :: "nat \<Rightarrow> bool \<Rightarrow> bool \<Rightarrow> Animation" where
  "Animation_new n lp immediatelyStarted =
     (let a = \<lparr> looped = lp, ntex = n, timerZero = False, idx = 0, started = False \<rparr>
      in if immediatelyStarted then Animation_start a else a)"

definition Animation_update :: "Animation \<Rightarrow> Animation" where
  "Animation_update a =
     (if timerZero a then
        if looped a then a\<lparr>idx := (idx a + 1) mod ntex a, timerZero := False\<rparr>
        else if idx a < size_minus_one (ntex a) then a\<lparr>idx := idx a + 1, timerZero := False\<rparr>
        else a\<lparr>started := False\<rparr>
      else a)"

definition Animation_isFinished :: "Animation \<Rightarrow> bool" where
  "Animation_isFinished a =
     (\<not> looped a \<and> idx a = size_minus_one (ntex a) \<and> timerZero a)"

definition Animation_isStarted :: "Animation \<Rightarrow> bool" where
  "Animation_isStarted a = started a"


section \<open>Tapioca: the egg, the player and the scene data\<close>

definition Egg_speed :: real where
  "Egg_speed = 20"

definition Egg_size :: real where
  "Egg_size = 50"

record Egg =
  egg_rect :: RectF
  velocity :: "real \<times> real"
  egg_destroyed :: bool
  explosionAnim :: Animation

definition Egg_new :: "real \<times> real \<Rightarrow> bool \<Rightarrow> Egg" where
  "Egg_new pos right =
     \<lparr> egg_rect = \<lparr> rx = fst pos - Egg_size / 2, ry = snd pos - Egg_size / 4,
                    rw = Egg_size, rh = Egg_size \<rparr>,
       velocity = (if right then Egg_speed else - Egg_speed, - Egg_speed),
       egg_destroyed = False,
       explosionAnim = Animation_new 2 False False \<rparr>"

definition Player_speed :: real where
  "Player_speed = 8"

definition jumpSpeed :: real where
  "jumpSpeed = 20"

record Player =
  vy :: real
  player_rect :: RectF
  grounded :: bool
  facingRight :: bool
  dead :: bool
  egg :: "Egg option"
  eggLaunchTimer :: bool
  restingAnim :: Animation
  throwingAnim :: Animation

text \<open>
  The constructor starts the launch timer at zero seconds left, so the first throw is
  allowed at once. The player's size is 40 by 70.
\<close>

definition Player_new :: "Env \<Rightarrow> Player" where
  "Player_new e =
     \<lparr> vy = 0,
       player_rect = \<lparr> rx = 100, ry = of_int (winH e) - floorHeight - 70, rw = 40, rh = 70 \<rparr>,
       grounded = False, facingRight = True, dead = False, egg = None,
       eggLaunchTimer = True,
       restingAnim = Animation_new 2 True True,
       throwingAnim = Animation_new 1 False False \<rparr>"

text \<open>
  The struct \<open>Data\<close> shared by the scenes. The font and the stage (floor and sun) only
  serve drawing and are left out.
\<close>

record Data =
  score :: int
  highScore :: int
  player :: Player
  blocks :: "Block list"

text \<open>
  \<open>Block::destroy\<close> sets the flag and calls the callback with \<open>1.0 - rect.y /
  Window::Height()\<close>: the integer height is converted to a double exactly, the quotient
  is rounded and so is the difference. The callback installed by \<open>Playing::update\<close>
  multiplies by \<open>100.0\<close>, rounds, converts to \<open>int\<close> and adds to the score, which is
  a 32-bit \<open>int\<close>, and then raises the high score to the score if it is lower.
\<close>

definition Block_destroy :: "Env \<Rightarrow> Block \<Rightarrow> Block \<times> real option" where
  "Block_destroy e block =
     (block\<lparr>destroyed := True\<rparr>,
      if winH e = 0 then None
      else Some (binary64 (1 - binary64 (ry (rect block) / of_int (winH e)))))"

definition hitCallback :: "real option \<Rightarrow> Data \<Rightarrow> Data" where
  "hitCallback height d =
     (let product = (case height of None \<Rightarrow> None | Some h \<Rightarrow> Some (binary64 (100 * h)));
          d1 = d\<lparr>score := int32 (score d + static_cast_int product)\<rparr>
      in d1\<lparr>highScore := max (score d1) (highScore d1)\<rparr>)"

text \<open>
  The loop of \<open>Egg::update\<close> over the blocks: the first block that intersects the egg is
  destroyed and the loop is left. The result is \<open>None\<close> when no block was hit, and
  otherwise the vector after the hit with the argument handed to the callback.
\<close>

fun hit_loop :: "Env \<Rightarrow> RectF \<Rightarrow> Block list \<Rightarrow> (Block list \<times> real option) option" where
  "hit_loop e r [] = None"
| "hit_loop e r (block # rest) =
     (if Block_intersects block r then
        (case Block_destroy e block of (block', height) \<Rightarrow> Some (block' # rest, height))
      else
        (case hit_loop e r rest of
           None \<Rightarrow> None
         | Some (rest', height) \<Rightarrow> Some (block # rest', height)))"

definition Egg_update :: "Env \<Rightarrow> Egg \<Rightarrow> Data \<Rightarrow> Egg \<times> Data" where
  "Egg_update e g d =
     (let g1 = g\<lparr>explosionAnim := Animation_update (explosionAnim g)\<rparr>;
          r = egg_rect g1
      in if Animation_isFinished (explosionAnim g1) then (g1\<lparr>egg_destroyed := True\<rparr>, d)
         else if Animation_isStarted (explosionAnim g1) then (g1, d)
         else if rx r + rw r \<le> 0 \<or> rx r > of_int (winW e) then
           (g1\<lparr>explosionAnim := Animation_start (explosionAnim g1)\<rparr>, d)
         else
           (case hit_loop e r (blocks d) of
              Some (blocks', height) \<Rightarrow>
                (g1\<lparr>explosionAnim := Animation_start (explosionAnim g1)\<rparr>,
                 hitCallback height (d\<lparr>blocks := blocks'\<rparr>))
            | None \<Rightarrow>
                (let v = (fst (velocity g1), snd (velocity g1) + gravity)
                 in (g1\<lparr>velocity := v,
                         egg_rect := r\<lparr>rx := rx r + fst v, ry := ry r + snd v\<rparr>\<rparr>, d))))"

text \<open>
  \<open>Player::update\<close>, one definition for each paragraph of the source, in its order:
  throwing, the egg's own update, the horizontal move, the jump, the vertical move, the
  death check and the two animations.
\<close>

definition Player_fire :: "Input \<Rightarrow> Player \<Rightarrow> Player" where
  "Player_fire inp p =
     (if keyZ_down inp \<and> eggLaunchTimer p then
        p\<lparr>throwingAnim := Animation_start (throwingAnim p),
          egg := Some (Egg_new (topCenter (player_rect p)) (facingRight p)),
          eggLaunchTimer := False\<rparr>
      else p)"

definition Player_egg_step :: "Env \<Rightarrow> Data \<Rightarrow> Data" where
  "Player_egg_step e d =
     (case egg (player d) of
        None \<Rightarrow> d
      | Some g \<Rightarrow>
          (case Egg_update e g d of
             (g', d') \<Rightarrow>
               d'\<lparr>player := (player d')\<lparr>egg := (if egg_destroyed g' then None else Some g')\<rparr>\<rparr>))"

fun blocked_loop :: "RectF \<Rightarrow> Block list \<Rightarrow> real \<Rightarrow> real" where
  "blocked_loop nextRect [] vx = vx"
| "blocked_loop nextRect (block # rest) vx =
     (if Block_intersects block nextRect then 0 else blocked_loop nextRect rest vx)"

definition Player_move_x :: "Env \<Rightarrow> Input \<Rightarrow> Block list \<Rightarrow> Player \<Rightarrow> Player" where
  "Player_move_x e inp bs p =
     (if keyLeft_pressed inp \<noteq> keyRight_pressed inp then
        let p1 = p\<lparr>facingRight := keyRight_pressed inp\<rparr>;
            r = player_rect p1;
            left = (keyLeft_pressed inp \<and> rx r > 0);
            right = (keyRight_pressed inp \<and> rx r + rw r < of_int (winW e))
        in if left \<noteq> right then
             let vx0 = (if left then - Player_speed else Player_speed);
                 vx1 = blocked_loop (r\<lparr>rx := rx r + vx0\<rparr>) bs vx0
             in p1\<lparr>player_rect := r\<lparr>rx := rx r + vx1\<rparr>\<rparr>
           else p1
      else p)"

definition Player_jump :: "Input \<Rightarrow> Player \<Rightarrow> Player" where
  "Player_jump inp p =
     (if grounded p \<and> keyUp_down inp then p\<lparr>vy := - jumpSpeed, grounded := False\<rparr> else p)"

text \<open>
  The loop of the vertical move acts on the first block that intersects the proposed
  rectangle. Its state is the triple of \<open>grounded\<close>, \<open>touching\<close> and \<open>vy\<close>.
\<close>

fun contact_loop :: "RectF \<Rightarrow> Block list \<Rightarrow> bool \<times> bool \<times> real \<Rightarrow> bool \<times> bool \<times> real" where
  "contact_loop nextRect [] s = s"
| "contact_loop nextRect (block # rest) (g, touching, v) =
     (if Block_intersects block nextRect then
        (if moving block then
           (if v > 0 then (True, True, fallingSpeed) else (g, touching, fallingSpeed))
         else (True, True, 0))
      else contact_loop nextRect rest (g, touching, v))"

definition Player_move_y :: "Env \<Rightarrow> Block list \<Rightarrow> Player \<Rightarrow> Player" where
  "Player_move_y e bs p =
     (let v0 = vy p + gravity;
          r = player_rect p
      in case contact_loop (r\<lparr>ry := ry r + v0\<rparr>) bs (grounded p, False, v0) of
           (g1, touching, v1) \<Rightarrow>
             (if \<not> touching \<and> ry r + rh r + v1 > of_int (winH e) - floorHeight then
                p\<lparr>vy := 0, grounded := True, player_rect := r\<lparr>ry := ry r + 0\<rparr>\<rparr>
              else
                p\<lparr>vy := v1, grounded := g1, player_rect := r\<lparr>ry := ry r + v1\<rparr>\<rparr>))"

fun crush_loop :: "RectF \<Rightarrow> Block list \<Rightarrow> bool \<Rightarrow> bool" where
  "crush_loop r [] dd = dd"
| "crush_loop r (block # rest) dd =
     (if moving block \<and> Block_intersects block r then True else crush_loop r rest dd)"

definition Player_death :: "Block list \<Rightarrow> Player \<Rightarrow> Player" where
  "Player_death bs p =
     (if grounded p then p\<lparr>dead := crush_loop (player_rect p) bs (dead p)\<rparr> else p)"

definition Player_anims :: "Player \<Rightarrow> Player" where
  "Player_anims p =
     p\<lparr>restingAnim := Animation_update (restingAnim p),
       throwingAnim := Animation_update (throwingAnim p)\<rparr>"

definition Player_update :: "Env \<Rightarrow> Input \<Rightarrow> Data \<Rightarrow> Data" where
  "Player_update e inp d =
     (let d1 = d\<lparr>player := Player_fire inp (player d)\<rparr>;
          d2 = Player_egg_step e d1;
          bs = blocks d2;
          p3 = Player_move_x e inp bs (player d2);
          p4 = Player_jump inp p3;
          p5 = Player_move_y e bs p4;
          p6 = Player_death bs p5
      in d2\<lparr>player := Player_anims p6\<rparr>)"


section \<open>Tapioca: the scenes\<close>

datatype Scene = Title | Playing | GameOver

text \<open>
  The constructor of \<open>Playing\<close>; the constructors of \<open>Title\<close> and \<open>GameOver\<close> only
  prepare textures.
\<close>

definition Playing_init :: "Env \<Rightarrow> Data \<Rightarrow> Data" where
  "Playing_init e d = d\<lparr>score := 0, player := Player_new e, blocks := []\<rparr>"

text \<open>
  Modelled from the spec: the scene manager is part of the game framework. Transitions
  are immediate (their duration is always zero) and keep no history; entering a scene
  constructs it.
\<close>

definition changeScene :: "Env \<Rightarrow> Scene \<Rightarrow> Data \<Rightarrow> Scene \<times> Data" where
  "changeScene e s d = (s, case s of Playing \<Rightarrow> Playing_init e d | _ \<Rightarrow> d)"

definition Title_update :: "Env \<Rightarrow> Input \<Rightarrow> Data \<Rightarrow> Scene \<times> Data" where
  "Title_update e inp d = (if keyZ_down inp then changeScene e Playing d else (Title, d))"

definition GameOver_update :: "Env \<Rightarrow> Input \<Rightarrow> Data \<Rightarrow> Scene \<times> Data" where
  "GameOver_update e inp d = (if keyR_down inp then changeScene e Playing d else (GameOver, d))"

text \<open>
  \<open>Playing::update\<close>. The stopwatch and the random generator are outside the tick: the
  argument \<open>lane\<close> is \<open>None\<close> when the stopwatch has not passed the spawn interval, and
  \<open>Some k\<close> when it has and \<open>Random(0, numBlocksX - 1)\<close> answered \<open>k\<close>.
\<close>

definition spawn_block :: "Env \<Rightarrow> int \<Rightarrow> Block list \<Rightarrow> Block list" where
  "spawn_block e k bs = bs @ [Block_new (of_int (k * winW e) / of_int numBlocksX)]"

definition Playing_update :: "Env \<Rightarrow> Input \<Rightarrow> int option \<Rightarrow> Data \<Rightarrow> Scene \<times> Data" where
  "Playing_update e inp lane d =
     (let d1 = (case lane of None \<Rightarrow> d | Some k \<Rightarrow> d\<lparr>blocks := spawn_block e k (blocks d)\<rparr>)
      in case update_blocks e (blocks d1) of
           (bs, over) \<Rightarrow>
             if over then changeScene e GameOver (d1\<lparr>blocks := bs\<rparr>)
             else
               let d2 = Player_update e inp (d1\<lparr>blocks := bs\<rparr>)
               in if dead (player d2) then changeScene e GameOver d2
                  else (Playing, d2\<lparr>blocks := filter (\<lambda>block. \<not> destroyed block) (blocks d2)\<rparr>))"

definition Scene_update :: "Env \<Rightarrow> Input \<Rightarrow> int option \<Rightarrow> Scene \<times> Data \<Rightarrow> Scene \<times> Data" where
  "Scene_update e inp lane sd =
     (case sd of
        (Title, d) \<Rightarrow> Title_update e inp d
      | (Playing, d) \<Rightarrow> Playing_update e inp lane d
      | (GameOver, d) \<Rightarrow> GameOver_update e inp d)"


section \<open>PyoroLike\<close>

text \<open>
  The earlier prototype. Its block vector is a global variable; the functions below take
  it as an argument and return it. Names that the Tapioca model already uses carry the
  suffix \<open>_pl\<close>.
\<close>

definition GRAVITY :: real where
  "GRAVITY = 1"

definition FLOOR_HEIGHT :: real where
  "FLOOR_HEIGHT = 10"

record Block_pl =
  rect_pl :: RectF
  speed_pl :: real
  destroyed_pl :: bool
  collided :: bool

definition Block_pl_new :: "real \<Rightarrow> Block_pl" where
  "Block_pl_new x0 =
     \<lparr> rect_pl = \<lparr> rx = x0, ry = - 50, rw = 50, rh = 50 \<rparr>,
       speed_pl = 3, destroyed_pl = False, collided = False \<rparr>"

definition Block_pl_intersects :: "Block_pl \<Rightarrow> RectF \<Rightarrow> bool" where
  "Block_pl_intersects block other = intersects other (rect_pl block)"

fun collide_loop_pl :: "RectF \<Rightarrow> nat \<Rightarrow> nat \<Rightarrow> Block_pl list \<Rightarrow> bool" where
  "collide_loop_pl nextRect i j [] = False"
| "collide_loop_pl nextRect i j (block # rest) =
     (if i \<noteq> j \<and> intersects nextRect (rect_pl block) then True
      else collide_loop_pl nextRect i (Suc j) rest)"

definition Block_pl_willCollide :: "Env \<Rightarrow> nat \<Rightarrow> Block_pl list \<Rightarrow> bool" where
  "Block_pl_willCollide e i bs =
     (let r = rect_pl (bs ! i); s = speed_pl (bs ! i) in
      if ry r + rh r + s > of_int (winH e) - FLOOR_HEIGHT then True
      else collide_loop_pl (r\<lparr>ry := ry r + s\<rparr>) i 0 bs)"

definition Block_pl_update :: "Env \<Rightarrow> nat \<Rightarrow> Block_pl list \<Rightarrow> Block_pl list" where
  "Block_pl_update e i bs =
     (let b = bs ! i in
      if \<not> collided b then
        let b1 = (if Block_pl_willCollide e i bs then b\<lparr>speed_pl := 0, collided := True\<rparr> else b)
        in bs[i := b1\<lparr>rect_pl := (rect_pl b1)\<lparr>ry := ry (rect_pl b1) + speed_pl b1\<rparr>\<rparr>]
      else bs)"

fun blocks_loop_pl :: "Env \<Rightarrow> nat list \<Rightarrow> Block_pl list \<Rightarrow> Block_pl list" where
  "blocks_loop_pl e [] bs = bs"
| "blocks_loop_pl e (i # rest) bs = blocks_loop_pl e rest (Block_pl_update e i bs)"

definition update_blocks_pl :: "Env \<Rightarrow> Block_pl list \<Rightarrow> Block_pl list" where
  "update_blocks_pl e bs = blocks_loop_pl e [0..<length bs] bs"

record Bullet =
  active :: bool
  bullet_rect :: RectF
  bullet_velocity :: "real \<times> real"

definition Bullet_new :: "real \<times> real \<Rightarrow> bool \<Rightarrow> Bullet" where
  "Bullet_new pos right =
     \<lparr> active = True,
       bullet_rect = \<lparr> rx = fst pos - 25, ry = snd pos - 50, rw = 50, rh = 50 \<rparr>,
       bullet_velocity = (if right then 20 else - 20, - 20) \<rparr>"

fun hit_loop_pl :: "RectF \<Rightarrow> Block_pl list \<Rightarrow> Block_pl list option" where
  "hit_loop_pl r [] = None"
| "hit_loop_pl r (block # rest) =
     (if Block_pl_intersects block r then Some (block\<lparr>destroyed_pl := True\<rparr> # rest)
      else (case hit_loop_pl r rest of None \<Rightarrow> None | Some rest' \<Rightarrow> Some (block # rest')))"

definition Bullet_update :: "Env \<Rightarrow> Bullet \<Rightarrow> Block_pl list \<Rightarrow> Bullet \<times> Block_pl list" where
  "Bullet_update e b bs =
     (let r = bullet_rect b in
      if \<not> active b then (b, bs)
      else if rx r + rw r \<le> 0 \<or> rx r > of_int (winW e) then (b\<lparr>active := False\<rparr>, bs)
      else
        (case hit_loop_pl r bs of
           Some bs' \<Rightarrow> (b\<lparr>active := False\<rparr>, bs')
         | None \<Rightarrow>
             (let v = (fst (bullet_velocity b), snd (bullet_velocity b) + GRAVITY)
              in (b\<lparr>bullet_velocity := v,
                     bullet_rect := r\<lparr>rx := rx r + fst v, ry := ry r + snd v\<rparr>\<rparr>, bs))))"

definition SPEED :: real where
  "SPEED = 10"

record Player_pl =
  vy_pl :: real
  player_rect_pl :: RectF
  grounded_pl :: bool
  facingRight_pl :: bool
  bullet :: "Bullet option"
  bulletFireTimer :: bool

text \<open>
  The fire timer is built with one second and not started, so it has not reached zero
  before the first shot.
\<close>

definition Player_pl_new :: Player_pl where
  "Player_pl_new =
     \<lparr> vy_pl = 0, player_rect_pl = \<lparr> rx = 50, ry = 50, rw = 50, rh = 100 \<rparr>,
       grounded_pl = False, facingRight_pl = True, bullet = None, bulletFireTimer = False \<rparr>"

definition Player_pl_fire :: "Input \<Rightarrow> Player_pl \<Rightarrow> Player_pl" where
  "Player_pl_fire inp p =
     (if keyZ_down inp \<and>
         (case bullet p of None \<Rightarrow> True | Some b \<Rightarrow> \<not> active b \<and> bulletFireTimer p) then
        p\<lparr>bullet := Some (Bullet_new (topCenter (player_rect_pl p)) (facingRight_pl p)),
          bulletFireTimer := False\<rparr>
      else p)"

definition Player_pl_bullet_step ::
    "Env \<Rightarrow> Player_pl \<times> Block_pl list \<Rightarrow> Player_pl \<times> Block_pl list" where
  "Player_pl_bullet_step e pb =
     (case pb of
        (p, bs) \<Rightarrow>
          (case bullet p of
             None \<Rightarrow> (p, bs)
           | Some b \<Rightarrow> (case Bullet_update e b bs of (b', bs') \<Rightarrow> (p\<lparr>bullet := Some b'\<rparr>, bs'))))"

text \<open>
  The horizontal loop of this variant ignores a block that already intersects the
  player's current rectangle.
\<close>

fun blocked_loop_pl :: "RectF \<Rightarrow> RectF \<Rightarrow> Block_pl list \<Rightarrow> real \<Rightarrow> real" where
  "blocked_loop_pl r nextRect [] vx = vx"
| "blocked_loop_pl r nextRect (block # rest) vx =
     (if \<not> Block_pl_intersects block r \<and> Block_pl_intersects block nextRect then 0
      else blocked_loop_pl r nextRect rest vx)"

definition Player_pl_move_x :: "Env \<Rightarrow> Input \<Rightarrow> Block_pl list \<Rightarrow> Player_pl \<Rightarrow> Player_pl" where
  "Player_pl_move_x e inp bs p =
     (let r = player_rect_pl p;
          left = (keyLeft_pressed inp \<and> rx r > 0);
          right = (keyRight_pressed inp \<and> rx r + rw r < of_int (winW e));
          vx0 = (if left \<noteq> right then (if right then SPEED else if left then - SPEED else 0)
                 else 0);
          p1 = (if left \<noteq> right
                then (if right then p\<lparr>facingRight_pl := True\<rparr>
                      else if left then p\<lparr>facingRight_pl := False\<rparr> else p)
                else p);
          vx1 = blocked_loop_pl r (r\<lparr>rx := rx r + vx0\<rparr>) bs vx0
      in p1\<lparr>player_rect_pl := r\<lparr>rx := rx r + vx1\<rparr>\<rparr>)"

definition Player_pl_jump :: "Input \<Rightarrow> Player_pl \<Rightarrow> Player_pl" where
  "Player_pl_jump inp p =
     (if grounded_pl p \<and> keyUp_down inp then p\<lparr>vy_pl := - 20, grounded_pl := False\<rparr> else p)"

fun contact_loop_pl ::
    "RectF \<Rightarrow> Block_pl list \<Rightarrow> bool \<times> bool \<times> real \<Rightarrow> bool \<times> bool \<times> real" where
  "contact_loop_pl nextRect [] s = s"
| "contact_loop_pl nextRect (block # rest) (g, touching, v) =
     (if Block_pl_intersects block nextRect then
        (if speed_pl block > 0 then
           (if v > 0 then (True, True, speed_pl block) else (g, touching, speed_pl block))
         else (True, True, 0))
      else contact_loop_pl nextRect rest (g, touching, v))"

definition Player_pl_move_y :: "Env \<Rightarrow> Block_pl list \<Rightarrow> Player_pl \<Rightarrow> Player_pl" where
  "Player_pl_move_y e bs p =
     (let v0 = vy_pl p + GRAVITY;
          r = player_rect_pl p
      in case contact_loop_pl (r\<lparr>ry := ry r + v0\<rparr>) bs (grounded_pl p, False, v0) of
           (g1, touching, v1) \<Rightarrow>
             (if \<not> touching \<and> ry r + rh r + v1 > of_int (winH e) - FLOOR_HEIGHT then
                p\<lparr>vy_pl := 0, grounded_pl := True, player_rect_pl := r\<lparr>ry := ry r + 0\<rparr>\<rparr>
              else
                p\<lparr>vy_pl := v1, grounded_pl := g1, player_rect_pl := r\<lparr>ry := ry r + v1\<rparr>\<rparr>))"

text \<open>
  The update ends with \<open>assert(false)\<close> when a block intersects the player's final
  rectangle; the failed assertion is the error value of the model.
\<close>

datatype error = AssertionFailed

definition Player_pl_update ::
    "Env \<Rightarrow> Input \<Rightarrow> Player_pl \<times> Block_pl list \<Rightarrow> error + Player_pl \<times> Block_pl list" where
  "Player_pl_update e inp pb =
     (case Player_pl_bullet_step e (Player_pl_fire inp (fst pb), snd pb) of
        (p2, bs) \<Rightarrow>
          (let p3 = Player_pl_move_x e inp bs p2;
               p4 = Player_pl_jump inp p3;
               p5 = Player_pl_move_y e bs p4
           in if list_ex (\<lambda>block. Block_pl_intersects block (player_rect_pl p5)) bs
              then Inl AssertionFailed
              else Inr (p5, bs)))"


section \<open>Tapioca, second version: the scenes\<close>

text \<open>
  The second version in \<open>Tapioca/Main.cpp\<close> keeps only the two scores in the shared
  \<open>Data\<close>. The player and the block vector are members of the scene \<open>Playing\<close>, so a
  newly constructed scene starts with a newly constructed player and no blocks, and its
  constructor only starts the spawn stopwatch: it does not touch the scores. The player
  of this version has the fields of PyoroLike's player and a \<open>dead\<close> flag; its blocks
  are the blocks of the first version.
\<close>

record Data_v2 =
  score_v2 :: int
  highScore_v2 :: int

record Player_v2 = Player_pl +
  dead_v2 :: bool

record Playing_v2 =
  player_v2 :: Player_v2
  blocks_v2 :: "Block list"

definition Player_v2_new :: Player_v2 where
  "Player_v2_new =
     \<lparr> vy_pl = 0, player_rect_pl = \<lparr> rx = 50, ry = 50, rw = 50, rh = 100 \<rparr>,
       grounded_pl = False, facingRight_pl = True, bullet = None, bulletFireTimer = False,
       dead_v2 = False \<rparr>"

definition Playing_v2_init :: "Data_v2 \<Rightarrow> Data_v2 \<times> Playing_v2" where
  "Playing_v2_init d = (d, \<lparr> player_v2 = Player_v2_new, blocks_v2 = [] \<rparr>)"

text \<open>
  Modelled from the spec: the classes \<open>Title\<close> and \<open>GameOver\<close> of this version are
  empty, so their \<open>update\<close> is the one of the framework's scene class. The scene manager
  changes the scene only when the active scene asks for it, so these scenes are never
  left, whatever the input.
\<close>

definition Title_v2_update :: "Input \<Rightarrow> Data_v2 \<Rightarrow> Scene \<times> Data_v2" where
  "Title_v2_update inp d = (Title, d)"

definition GameOver_v2_update :: "Input \<Rightarrow> Data_v2 \<Rightarrow> Scene \<times> Data_v2" where
  "GameOver_v2_update inp d = (GameOver, d)"


section \<open>Invariants and auxiliary notions\<close>

text \<open>
  A block of the game has a non-negative height, is not above its spawn position and has
  not fallen below the window. The block loop keeps this: a block only moves down, and
  only while its bottom edge stays above the floor line.
\<close>

definition block_ok :: "Env \<Rightarrow> Block \<Rightarrow> bool" where
  "block_ok e b =
     (0 \<le> rh (rect b) \<and> - Block_size \<le> ry (rect b) \<and> ry (rect b) \<le> of_int (winH e))"

text \<open>
  The double that the score callback converts to \<open>int\<close> when the block \<open>b\<close> is
  destroyed in a window of non-zero height.
\<close>

definition score_product :: "Env \<Rightarrow> Block \<Rightarrow> real" where
  "score_product e b =
     binary64 (100 * binary64 (1 - binary64 (ry (rect b) / of_int (winH e))))"

text \<open>
  A rectangle lies inside the window horizontally. Blocks are spawned in one of the
  eight lanes of a window that is eight block sizes wide, and never move sideways.
\<close>

definition in_window :: "Env \<Rightarrow> RectF \<Rightarrow> bool" where
  "in_window e r = (0 \<le> rx r \<and> rx r + rw r \<le> of_int (winW e))"

text \<open>
  An egg is flying as long as it is not destroyed and its explosion has not been started;
  the explosion timer is started together with the explosion, so it has not reached zero.
\<close>

definition Egg_flying :: "Egg \<Rightarrow> bool" where
  "Egg_flying g =
     (\<not> egg_destroyed g \<and> \<not> started (explosionAnim g) \<and> \<not> timerZero (explosionAnim g))"

text \<open>
  The horizontal step that \<open>Player::update\<close> proposes before it looks at the blocks:
  in Tapioca none unless exactly one of left and right is held and the screen edge allows
  it; in PyoroLike a velocity that is zero in those cases.
\<close>

definition proposed_vx :: "Env \<Rightarrow> Input \<Rightarrow> RectF \<Rightarrow> real option" where
  "proposed_vx e inp r =
     (if keyLeft_pressed inp \<noteq> keyRight_pressed inp then
        let left = (keyLeft_pressed inp \<and> rx r > 0);
            right = (keyRight_pressed inp \<and> rx r + rw r < of_int (winW e))
        in if left \<noteq> right then Some (if left then - Player_speed else Player_speed) else None
      else None)"

definition proposed_vx_pl :: "Env \<Rightarrow> Input \<Rightarrow> RectF \<Rightarrow> real" where
  "proposed_vx_pl e inp r =
     (let left = (keyLeft_pressed inp \<and> rx r > 0);
          right = (keyRight_pressed inp \<and> rx r + rw r < of_int (winW e))
      in if left \<noteq> right then (if right then SPEED else if left then - SPEED else 0) else 0)"


section \<open>Concrete states used in the examples\<close>

text \<open>
  The window of the game is 400 by 600, so the floor line is at 520 in Tapioca and at 590
  in PyoroLike. \<open>block_at x0 y0\<close> is a block spawned in the lane at \<open>x0\<close> that has fallen
  to \<open>y0\<close>.
\<close>

definition env600 :: Env where
  "env600 = \<lparr> winW = 400, winH = 600 \<rparr>"

definition block_at :: "real \<Rightarrow> real \<Rightarrow> Block" where
  "block_at x0 y0 = (Block_new x0)\<lparr>rect := (rect (Block_new x0))\<lparr>ry := y0\<rparr>\<rparr>"

text \<open>A block that has come to rest on the floor.\<close>

definition restingBlock :: Block where
  "restingBlock = (block_at 0 469)\<lparr>moving := False, speed := 0\<rparr>"

text \<open>
  A PyoroLike block that has collided at height 300 (the block it landed on is gone).
\<close>

definition floatingBlock :: Block_pl where
  "floatingBlock =
     (Block_pl_new 0)\<lparr>rect_pl := (rect_pl (Block_pl_new 0))\<lparr>ry := 300\<rparr>,
                       speed_pl := 0, collided := True\<rparr>"

definition block_pl_at :: "real \<Rightarrow> real \<Rightarrow> Block_pl" where
  "block_pl_at x0 y0 = (Block_pl_new x0)\<lparr>rect_pl := (rect_pl (Block_pl_new x0))\<lparr>ry := y0\<rparr>\<rparr>"

definition noInput :: Input where
  "noInput = \<lparr> keyZ_down = False, keyLeft_pressed = False, keyRight_pressed = False,
               keyUp_down = False, keyR_down = False \<rparr>"

text \<open>The scene data at the start of a session, and the player standing on the floor.\<close>

definition freshData :: Data where
  "freshData = \<lparr> score = 0, highScore = 0, player = Player_new env600, blocks = [] \<rparr>"

definition standingPlayer :: Player where
  "standingPlayer = (Player_new env600)\<lparr>grounded := True\<rparr>"

text \<open>
  The egg thrown to the right by the standing player, ten ticks after the throw.
\<close>

definition flyingEgg :: Egg where
  "flyingEgg =
     (Egg_new (120, 450) True)
       \<lparr>egg_rect := (egg_rect (Egg_new (120, 450) True))\<lparr>rx := 295, ry := 320\<rparr>,
        velocity := (20, - 5)\<rparr>"

text \<open>The same for PyoroLike: a bullet in flight, and the player at the top of a jump.\<close>

definition flyingBullet :: Bullet where
  "flyingBullet =
     (Bullet_new (85, 490) True)
       \<lparr>bullet_rect := (bullet_rect (Bullet_new (85, 490) True))\<lparr>rx := 260, ry := 295\<rparr>,
        bullet_velocity := (20, - 10)\<rparr>"

definition airbornePlayer :: Player_pl where
  "airbornePlayer =
     Player_pl_new\<lparr>player_rect_pl := (player_rect_pl Player_pl_new)\<lparr>rx := 60, ry := 199\<rparr>\<rparr>"


section \<open>Facts about the block loop\<close>

lemmas block_defs = Block_update_def Block_willCollide_def Block_new_def block_at_def env600_def
  fallingSpeed_def floorHeight_def Block_size_def intersects_def

lemma collide_loop_iff:
  "collide_loop nr i j bs \<longleftrightarrow> (\<exists>k<length bs. i \<noteq> j + k \<and> intersects nr (rect (bs ! k)))"
proof (induction bs arbitrary: j)
  case Nil
  show ?case by simp
next
  case (Cons b bs)
  show ?case
  proof (cases "i \<noteq> j \<and> intersects nr (rect b)")
    case True
    then have "\<exists>k<length (b # bs). i \<noteq> j + k \<and> intersects nr (rect ((b # bs) ! k))"
      by (intro exI[of _ 0]) simp
    with True show ?thesis by simp
  next
    case False
    have "(\<exists>k<length (b # bs). i \<noteq> j + k \<and> intersects nr (rect ((b # bs) ! k)))
          \<longleftrightarrow> (\<exists>k<length bs. i \<noteq> Suc j + k \<and> intersects nr (rect (bs ! k)))"
      (is "?L \<longleftrightarrow> ?R")
    proof
      assume ?L
      then obtain k where k: "k < length (b # bs)" "i \<noteq> j + k"
          "intersects nr (rect ((b # bs) ! k))"
        by blast
      with False have "k \<noteq> 0" by (cases k) auto
      then obtain k' where "k = Suc k'" by (cases k) auto
      with k show ?R by (intro exI[of _ k']) simp
    next
      assume ?R
      then obtain k where "k < length bs" "i \<noteq> Suc j + k" "intersects nr (rect (bs ! k))"
        by blast
      then show ?L by (intro exI[of _ "Suc k"]) simp
    qed
    with False Cons.IH[of "Suc j"] show ?thesis by auto
  qed
qed

lemma Block_update_length [simp]: "length (Block_update e i bs) = length bs"
  by (simp add: Block_update_def Let_def)

lemma Block_update_other: "j \<noteq> i \<Longrightarrow> Block_update e i bs ! j = bs ! j"
  by (simp add: Block_update_def Let_def)

lemma Block_update_as_update: "Block_update e i bs = bs[i := Block_update e i bs ! i]"
proof (rule nth_equalityI)
  show "length (Block_update e i bs) = length (bs[i := Block_update e i bs ! i])" by simp
next
  fix j assume "j < length (Block_update e i bs)"
  then show "Block_update e i bs ! j = bs[i := Block_update e i bs ! i] ! j"
    by (cases "j = i") (simp_all add: Block_update_other)
qed

lemma Block_willCollide_iff:
  assumes "i < length bs"
  shows "Block_willCollide e i (bs[i := (bs ! i)\<lparr>speed := fallingSpeed\<rparr>]) \<longleftrightarrow>
     (ry (rect (bs ! i)) + rh (rect (bs ! i)) + fallingSpeed > of_int (winH e) - floorHeight \<or>
      (\<exists>j<length bs. j \<noteq> i \<and>
          intersects ((rect (bs ! i))\<lparr>ry := ry (rect (bs ! i)) + fallingSpeed\<rparr>) (rect (bs ! j))))"
proof -
  have "(\<exists>k<length bs. i \<noteq> k \<and>
            intersects nr (rect (bs[i := (bs ! i)\<lparr>speed := fallingSpeed\<rparr>] ! k)))
        \<longleftrightarrow> (\<exists>j<length bs. j \<noteq> i \<and> intersects nr (rect (bs ! j)))" for nr
    by (metis nth_list_update_neq)
  with assms show ?thesis
    by (auto simp add: Block_willCollide_def Let_def collide_loop_iff)
qed

lemma Block_update_rect:
  assumes "i < length bs"
  shows "rect (Block_update e i bs ! i) =
           (if Block_willCollide e i (bs[i := (bs ! i)\<lparr>speed := fallingSpeed\<rparr>])
            then rect (bs ! i)
            else (rect (bs ! i))\<lparr>ry := ry (rect (bs ! i)) + fallingSpeed\<rparr>)"
  using assms by (simp add: Block_update_def Let_def)

lemma Block_update_moving:
  assumes "i < length bs"
  shows "moving (Block_update e i bs ! i) =
           (\<not> Block_willCollide e i (bs[i := (bs ! i)\<lparr>speed := fallingSpeed\<rparr>]))"
  using assms by (simp add: Block_update_def Let_def)

lemma Block_update_touchingTop:
  assumes "i < length bs"
  shows "touchingTop (Block_update e i bs ! i) =
           (touchingTop (bs ! i) \<or>
            (Block_willCollide e i (bs[i := (bs ! i)\<lparr>speed := fallingSpeed\<rparr>]) \<and>
             ry (rect (bs ! i)) \<le> 0))"
  using assms by (simp add: Block_update_def Let_def)

lemma take_agree:
  "length xs = length ys \<Longrightarrow> k \<le> length xs \<Longrightarrow> (\<forall>i<k. xs ! i = ys ! i) \<Longrightarrow>
     take k xs = take k ys"
  by (rule nth_take_lemma) auto

text \<open>
  The invariant of the loop: when the indices from \<open>k\<close> on are still to be visited, the
  blocks before \<open>k\<close> stay as they are, every block visited is updated against the results
  of the blocks before it and the old state of the blocks after it, and the blocks after
  the last one visited are untouched.
\<close>

lemma blocks_loop_gen:
  "length cur = n \<Longrightarrow> k \<le> n \<Longrightarrow> blocks_loop e [k..<n] cur = (res, over) \<Longrightarrow>
     \<exists>m. k \<le> m \<and> m \<le> n \<and> length res = n \<and>
         (\<forall>i<k. res ! i = cur ! i) \<and>
         (\<forall>i. k \<le> i \<and> i < m \<longrightarrow> res ! i = Block_update e i (take i res @ drop i cur) ! i) \<and>
         (\<forall>i. m \<le> i \<and> i < n \<longrightarrow> res ! i = cur ! i) \<and>
         (if over then k < m \<and> touchingTop (res ! (m - 1)) \<and>
                       (\<forall>i. k \<le> i \<and> i < m - 1 \<longrightarrow> \<not> touchingTop (res ! i))
          else m = n \<and> (\<forall>i. k \<le> i \<and> i < n \<longrightarrow> \<not> touchingTop (res ! i)))"
proof (induction "n - k" arbitrary: k cur)
  case 0
  then have "k = n" by simp
  with 0 show ?case by (intro exI[of _ n]) auto
next
  case (Suc d)
  then have kn: "k < n" by simp
  then have upt: "[k..<n] = k # [Suc k..<n]" by (simp add: upt_conv_Cons)
  define cur' where "cur' = Block_update e k cur"
  have len': "length cur' = n" using Suc.prems by (simp add: cur'_def)
  have other: "\<And>j. j \<noteq> k \<Longrightarrow> cur' ! j = cur ! j" by (simp add: cur'_def Block_update_other)
  have dropeq: "\<And>i. k < i \<Longrightarrow> drop i cur' = drop i cur"
  proof -
    fix i assume "k < i"
    have "cur' = cur[k := cur' ! k]" unfolding cur'_def by (rule Block_update_as_update)
    then have "drop i cur' = drop i (cur[k := cur' ! k])" by simp
    also have "\<dots> = drop i cur" using \<open>k < i\<close> by simp
    finally show "drop i cur' = drop i cur" .
  qed
  show ?case
  proof (cases "touchingTop (cur' ! k)")
    case True
    with Suc.prems upt have res: "res = cur'" and over: "over"
      by (auto simp add: cur'_def Let_def)
    have tk: "take k res @ drop k cur = cur"
    proof -
      have "take k res = take k cur"
        using len' Suc.prems kn other by (intro take_agree) (auto simp add: res)
      then show ?thesis by simp
    qed
    show ?thesis
      apply (rule exI[of _ "Suc k"])
      using kn len' other True over tk
      by (auto simp add: res less_Suc_eq cur'_def)
  next
    case False
    with Suc.prems upt have rec: "blocks_loop e [Suc k..<n] cur' = (res, over)"
      by (auto simp add: cur'_def Let_def)
    have "d = n - Suc k" using Suc.hyps by simp
    from Suc.hyps(1)[OF this len' _ rec] kn
    obtain m where m: "Suc k \<le> m" "m \<le> n" "length res = n"
        "\<forall>i<Suc k. res ! i = cur' ! i"
        "\<forall>i. Suc k \<le> i \<and> i < m \<longrightarrow> res ! i = Block_update e i (take i res @ drop i cur') ! i"
        "\<forall>i. m \<le> i \<and> i < n \<longrightarrow> res ! i = cur' ! i"
        "if over then Suc k < m \<and> touchingTop (res ! (m - 1)) \<and>
                      (\<forall>i. Suc k \<le> i \<and> i < m - 1 \<longrightarrow> \<not> touchingTop (res ! i))
         else m = n \<and> (\<forall>i. Suc k \<le> i \<and> i < n \<longrightarrow> \<not> touchingTop (res ! i))"
      by auto
    have tk: "take k res @ drop k cur = cur"
    proof -
      have "take k res = take k cur"
        using m(3,4) Suc.prems kn other by (intro take_agree) auto
      then show ?thesis by simp
    qed
    have atk: "res ! k = Block_update e k (take k res @ drop k cur) ! k"
      using m(4) tk by (simp add: cur'_def)
    have mid: "\<forall>i. k \<le> i \<and> i < m \<longrightarrow> res ! i = Block_update e i (take i res @ drop i cur) ! i"
    proof (intro allI impI)
      fix i assume i: "k \<le> i \<and> i < m"
      show "res ! i = Block_update e i (take i res @ drop i cur) ! i"
      proof (cases "i = k")
        case True
        with atk show ?thesis by simp
      next
        case False
        with i have "Suc k \<le> i" "k < i" by auto
        with m(5) i dropeq show ?thesis by simp
      qed
    qed
    have nok: "\<not> touchingTop (res ! k)"
      using m(4) False by simp
    have early: "\<forall>i. k \<le> i \<and> i < m - 1 \<longrightarrow> \<not> touchingTop (res ! i)"
      if "over"
    proof (intro allI impI)
      fix i assume i: "k \<le> i \<and> i < m - 1"
      show "\<not> touchingTop (res ! i)"
      proof (cases "i = k")
        case True
        with nok show ?thesis by simp
      next
        case False
        with i have "Suc k \<le> i \<and> i < m - 1" by auto
        with m(7) that show ?thesis by simp
      qed
    qed
    have full: "\<forall>i. k \<le> i \<and> i < n \<longrightarrow> \<not> touchingTop (res ! i)"
      if "\<not> over"
    proof (intro allI impI)
      fix i assume i: "k \<le> i \<and> i < n"
      show "\<not> touchingTop (res ! i)"
      proof (cases "i = k")
        case True
        with nok show ?thesis by simp
      next
        case False
        with i have "Suc k \<le> i \<and> i < n" by auto
        with m(7) that show ?thesis by simp
      qed
    qed
    have last: "if over then k < m \<and> touchingTop (res ! (m - 1)) \<and>
                       (\<forall>i. k \<le> i \<and> i < m - 1 \<longrightarrow> \<not> touchingTop (res ! i))
                else m = n \<and> (\<forall>i. k \<le> i \<and> i < n \<longrightarrow> \<not> touchingTop (res ! i))"
      using m(1,7) early full by (cases over) auto
    have pre: "\<forall>i<k. res ! i = cur ! i" using m(4) other by auto
    have post: "\<forall>i. m \<le> i \<and> i < n \<longrightarrow> res ! i = cur ! i" using m(1,6) other by auto
    from m(1) have "k \<le> m" by simp
    with m(2,3) pre mid post last show ?thesis by blast
  qed
qed

text \<open>
  Claim C1, as amended. The loop of \<open>Playing::update\<close> updates the blocks in place, so
  the collision test of a block sees the rectangles that the blocks stored before it have
  after their own update of this tick, and the last-frame rectangles only of the blocks
  stored after it: the block at index \<open>i\<close> ends the tick as its update computes it in
  the vector made of the first \<open>i\<close> results and the old blocks from \<open>i\<close> on. The loop
  visits the first \<open>m\<close> blocks and stops at the first block that touches the top after
  its update: either it reports the game over, the last block visited touches the top and
  no block visited before it does, or it does not, has visited every block and none
  touches the top. The blocks it does not visit keep their state.
\<close>

theorem blocks_loop_sequential:
  assumes "update_blocks e bs = (bs', over)"
  shows "\<exists>m\<le>length bs. length bs' = length bs \<and>
           (\<forall>i<m. bs' ! i = Block_update e i (take i bs' @ drop i bs) ! i) \<and>
           (\<forall>i. m \<le> i \<and> i < length bs \<longrightarrow> bs' ! i = bs ! i) \<and>
           (if over then 0 < m \<and> touchingTop (bs' ! (m - 1)) \<and>
                         (\<forall>i<m - 1. \<not> touchingTop (bs' ! i))
            else m = length bs \<and> (\<forall>i<m. \<not> touchingTop (bs' ! i)))"
proof -
  from assms have "blocks_loop e [0..<length bs] bs = (bs', over)"
    by (simp add: update_blocks_def)
  from blocks_loop_gen[OF refl _ this]
  obtain m where m: "m \<le> length bs" "length bs' = length bs"
      "\<forall>i. 0 \<le> i \<and> i < m \<longrightarrow> bs' ! i = Block_update e i (take i bs' @ drop i bs) ! i"
      "\<forall>i. m \<le> i \<and> i < length bs \<longrightarrow> bs' ! i = bs ! i"
      "if over then 0 < m \<and> touchingTop (bs' ! (m - 1)) \<and>
                     (\<forall>i. 0 \<le> i \<and> i < m - 1 \<longrightarrow> \<not> touchingTop (bs' ! i))
       else m = length bs \<and> (\<forall>i. 0 \<le> i \<and> i < length bs \<longrightarrow> \<not> touchingTop (bs' ! i))"
    by auto
  have vis: "\<forall>i<m. bs' ! i = Block_update e i (take i bs' @ drop i bs) ! i"
    using m(3) by simp
  have stop: "if over then 0 < m \<and> touchingTop (bs' ! (m - 1)) \<and>
                         (\<forall>i<m - 1. \<not> touchingTop (bs' ! i))
              else m = length bs \<and> (\<forall>i<m. \<not> touchingTop (bs' ! i))"
    using m(5) by (cases over) simp_all
  from m(1,2,4) vis stop show ?thesis by blast
qed

text \<open>
  Two instances. Two blocks in the same lane, one pixel apart: the upper block is tested
  against the lower block's new rectangle. And a block that stops at the top of the screen
  on the block under it: the loop is left there, and the third block keeps its place.
\<close>

theorem blocks_loop_sequential_witness:
  "update_blocks env600 [block_at 0 100, block_at 0 49] =
     ([(block_at 0 100)\<lparr>rect := (rect (block_at 0 100))\<lparr>ry := 103\<rparr>\<rparr>,
       (block_at 0 49)\<lparr>rect := (rect (block_at 0 49))\<lparr>ry := 52\<rparr>\<rparr>], False) \<and>
   (block_at 0 49)\<lparr>rect := (rect (block_at 0 49))\<lparr>ry := 52\<rparr>\<rparr> =
     Block_update env600 1
       ([(block_at 0 100)\<lparr>rect := (rect (block_at 0 100))\<lparr>ry := 103\<rparr>\<rparr>] @ [block_at 0 49]) ! 1 \<and>
   snd (update_blocks env600 [block_at 0 0, block_at 0 50, block_at 100 200]) \<and>
   touchingTop (fst (update_blocks env600 [block_at 0 0, block_at 0 50, block_at 100 200]) ! 0) \<and>
   fst (update_blocks env600 [block_at 0 0, block_at 0 50, block_at 100 200]) ! 2 = block_at 100 200"
proof -
  let ?A = "block_at 0 100" and ?B = "block_at 0 49"
  let ?A' = "?A\<lparr>rect := (rect ?A)\<lparr>ry := 103\<rparr>\<rparr>" and ?B' = "?B\<lparr>rect := (rect ?B)\<lparr>ry := 52\<rparr>\<rparr>"
  have run: "update_blocks env600 [?A, ?B] = ([?A', ?B'], False)"
    by (simp add: update_blocks_def upt_conv_Cons Let_def block_defs)
  from blocks_loop_sequential[OF run]
  have "\<forall>i<2. [?A', ?B'] ! i = Block_update env600 i (take i [?A', ?B'] @ drop i [?A, ?B]) ! i"
    by auto
  from this[rule_format, of 1]
  have first: "?B' = Block_update env600 1 ([?A'] @ [?B]) ! 1"
    by simp
  let ?cs = "[block_at 0 0, block_at 0 50, block_at 100 200]"
  obtain cs' where run2: "update_blocks env600 ?cs = (cs', True)"
    by (simp add: update_blocks_def upt_conv_Cons Let_def block_defs)
  have top: "touchingTop (cs' ! 0)"
    using run2 by (auto simp add: update_blocks_def upt_conv_Cons Let_def block_defs)
  from blocks_loop_sequential[OF run2]
  obtain m where m: "m \<le> length ?cs" "\<forall>i. m \<le> i \<and> i < length ?cs \<longrightarrow> cs' ! i = ?cs ! i"
      "0 < m" "\<forall>i<m - 1. \<not> touchingTop (cs' ! i)"
    by auto
  have "m = 1"
  proof (rule ccontr)
    assume "m \<noteq> 1"
    with m(3) have "0 < m - 1" by simp
    with m(4) top show False by blast
  qed
  with m(2) have "cs' ! 2 = ?cs ! 2" by simp
  with run run2 first top show ?thesis by simp
qed

text \<open>
  Claim C1 as stated fails: in the same state a simultaneous update from a snapshot stops
  the upper block (its next rectangle overlaps the lower block's last-frame rectangle),
  while the loop of the code lets it fall to 52.
\<close>

theorem in_place_differs_from_snapshot:
  "ry (rect (fst (update_blocks env600 [block_at 0 100, block_at 0 49]) ! 1)) = 52 \<and>
   ry (rect (snapshot_update env600 [block_at 0 100, block_at 0 49] ! 1)) = 49"
  by (simp add: update_blocks_def snapshot_update_def upt_conv_Cons Let_def block_defs)

text \<open>
  Claim C4. One update of a block leaves it stopped exactly when its next position
  (current position plus fall speed) would cross the floor line or intersect the current
  rectangle of another block of the vector; and the update leaves the \<open>touchingTop\<close> flag
  set exactly when it was set before or the block has stopped with its top edge at or
  above \<open>y = 0\<close>.
\<close>

theorem block_stops_iff_floor_or_block:
  assumes "i < length bs"
  shows "(\<not> moving (Block_update e i bs ! i) \<longleftrightarrow>
            (ry (rect (bs ! i)) + rh (rect (bs ! i)) + fallingSpeed > of_int (winH e) - floorHeight \<or>
             (\<exists>j<length bs. j \<noteq> i \<and>
                intersects ((rect (bs ! i))\<lparr>ry := ry (rect (bs ! i)) + fallingSpeed\<rparr>)
                  (rect (bs ! j)))))
         \<and> (touchingTop (Block_update e i bs ! i) \<longleftrightarrow>
              touchingTop (bs ! i) \<or>
              (\<not> moving (Block_update e i bs ! i) \<and> ry (rect (Block_update e i bs ! i)) \<le> 0))"
proof -
  let ?c = "Block_willCollide e i (bs[i := (bs ! i)\<lparr>speed := fallingSpeed\<rparr>])"
  have m: "moving (Block_update e i bs ! i) = (\<not> ?c)"
    using assms by (rule Block_update_moving)
  have t: "touchingTop (Block_update e i bs ! i) =
             (touchingTop (bs ! i) \<or> (?c \<and> ry (rect (bs ! i)) \<le> 0))"
    using assms by (rule Block_update_touchingTop)
  have y: "?c \<Longrightarrow> (ry (rect (Block_update e i bs ! i)) \<le> 0) = (ry (rect (bs ! i)) \<le> 0)"
    using assms by (simp add: Block_update_rect)
  note c = Block_willCollide_iff[OF assms, of e]
  show ?thesis
  proof (cases ?c)
    case True
    with m t y c show ?thesis by blast
  next
    case False
    with m t c show ?thesis by blast
  qed
qed

text \<open>
  An instance: a block spawned above a full column stops at once, with its top edge above
  the screen, and raises the flag.
\<close>

theorem block_stops_iff_floor_or_block_witness:
  "(1::nat) < length [block_at 0 (- 1), block_at 0 (- 50)] \<and>
   \<not> moving (Block_update env600 1 [block_at 0 (- 1), block_at 0 (- 50)] ! 1) \<and>
   touchingTop (Block_update env600 1 [block_at 0 (- 1), block_at 0 (- 50)] ! 1)"
proof -
  let ?bs = "[block_at 0 (- 1), block_at 0 (- 50)]"
  have len: "(1::nat) < length ?bs" by simp
  have hit: "\<exists>j<length ?bs. j \<noteq> 1 \<and>
      intersects ((rect (?bs ! 1))\<lparr>ry := ry (rect (?bs ! 1)) + fallingSpeed\<rparr>) (rect (?bs ! j))"
    by (intro exI[of _ 0]) (simp add: block_defs)
  have top: "ry (rect (Block_update env600 1 ?bs ! 1)) \<le> 0"
    by (simp add: Let_def block_defs)
  from block_stops_iff_floor_or_block[OF len, of env600] hit top
  have "\<not> moving (Block_update env600 1 ?bs ! 1) \<and> touchingTop (Block_update env600 1 ?bs ! 1)"
    by blast
  with len show ?thesis by blast
qed


section \<open>Stopped blocks\<close>

lemma Block_pl_update_length [simp]: "length (Block_pl_update e j bs) = length bs"
  by (simp add: Block_pl_update_def Let_def)

lemma Block_pl_update_collided:
  "collided (bs ! i) \<Longrightarrow> Block_pl_update e j bs ! i = bs ! i"
  by (cases "j = i") (simp_all add: Block_pl_update_def Let_def)

lemma blocks_loop_pl_length [simp]: "length (blocks_loop_pl e js bs) = length bs"
  by (induction js arbitrary: bs) simp_all

lemma blocks_loop_pl_collided:
  "collided (bs ! i) \<Longrightarrow> blocks_loop_pl e js bs ! i = bs ! i"
proof (induction js arbitrary: bs)
  case Nil
  show ?case by simp
next
  case (Cons j js)
  have keep: "Block_pl_update e j bs ! i = bs ! i"
    using Cons.prems by (rule Block_pl_update_collided)
  with Cons.prems have "collided (Block_pl_update e j bs ! i)" by simp
  from Cons.IH[OF this] keep show ?case by simp
qed

lemma update_blocks_pl_collided:
  "collided (bs ! i) \<Longrightarrow> (update_blocks_pl e ^^ n) bs ! i = bs ! i"
proof (induction n)
  case 0
  show ?case by simp
next
  case (Suc n)
  then have "collided ((update_blocks_pl e ^^ n) bs ! i)" by simp
  then have "update_blocks_pl e ((update_blocks_pl e ^^ n) bs) ! i = (update_blocks_pl e ^^ n) bs ! i"
    unfolding update_blocks_pl_def by (rule blocks_loop_pl_collided)
  with Suc show ?case by simp
qed

lemma collide_loop_pl_iff:
  "collide_loop_pl nr i j bs \<longleftrightarrow>
     (\<exists>k<length bs. i \<noteq> j + k \<and> intersects nr (rect_pl (bs ! k)))"
proof (induction bs arbitrary: j)
  case Nil
  show ?case by simp
next
  case (Cons b bs)
  show ?case
  proof (cases "i \<noteq> j \<and> intersects nr (rect_pl b)")
    case True
    then have "\<exists>k<length (b # bs). i \<noteq> j + k \<and> intersects nr (rect_pl ((b # bs) ! k))"
      by (intro exI[of _ 0]) simp
    with True show ?thesis by simp
  next
    case False
    have "(\<exists>k<length (b # bs). i \<noteq> j + k \<and> intersects nr (rect_pl ((b # bs) ! k)))
          \<longleftrightarrow> (\<exists>k<length bs. i \<noteq> Suc j + k \<and> intersects nr (rect_pl (bs ! k)))"
      (is "?L \<longleftrightarrow> ?R")
    proof
      assume ?L
      then obtain k where k: "k < length (b # bs)" "i \<noteq> j + k"
          "intersects nr (rect_pl ((b # bs) ! k))"
        by blast
      with False have "k \<noteq> 0" by (cases k) auto
      then obtain k' where "k = Suc k'" by (cases k) auto
      with k show ?R by (intro exI[of _ k']) simp
    next
      assume ?R
      then obtain k where "k < length bs" "i \<noteq> Suc j + k" "intersects nr (rect_pl (bs ! k))"
        by blast
      then show ?L by (intro exI[of _ "Suc k"]) simp
    qed
    with False Cons.IH[of "Suc j"] show ?thesis by auto
  qed
qed

lemma Block_pl_willCollide_iff:
  "Block_pl_willCollide e i bs \<longleftrightarrow>
     (ry (rect_pl (bs ! i)) + rh (rect_pl (bs ! i)) + speed_pl (bs ! i)
        > of_int (winH e) - FLOOR_HEIGHT \<or>
      (\<exists>j<length bs. j \<noteq> i \<and>
          intersects ((rect_pl (bs ! i))\<lparr>ry := ry (rect_pl (bs ! i)) + speed_pl (bs ! i)\<rparr>)
            (rect_pl (bs ! j))))"
  by (auto simp add: Block_pl_willCollide_def Let_def collide_loop_pl_iff)

lemma Block_pl_update_result:
  assumes "i < length bs"
  shows "Block_pl_update e i bs ! i =
           (if collided (bs ! i) then bs ! i
            else if Block_pl_willCollide e i bs then (bs ! i)\<lparr>speed_pl := 0, collided := True\<rparr>
            else (bs ! i)\<lparr>rect_pl := (rect_pl (bs ! i))
                            \<lparr>ry := ry (rect_pl (bs ! i)) + speed_pl (bs ! i)\<rparr>\<rparr>)"
  using assms by (simp add: Block_pl_update_def Let_def)

text \<open>
  Claim C3, as amended. In both programs an update leaves a block's \<open>y\<close> unchanged or
  adds the block's fall speed to it, so a block never moves up. In Tapioca the state is
  recomputed at every update: when the block's next position would cross the floor line or
  intersect another block, the block is not moving after the update and keeps its
  rectangle; otherwise it is moving and has fallen by the fall speed, whether or not it had
  stopped before. In PyoroLike the update of a block that has not collided runs the same
  test with the block's own speed: when it holds, the block keeps its rectangle, its speed
  becomes zero and it has collided; otherwise it falls by its speed and nothing else
  changes. The update of a block that has collided changes nothing, and however many times
  the block loop runs, such a block stays exactly as it is.
\<close>

theorem block_never_rises_and_rests_while_blocked:
  "(i < length bs \<longrightarrow>
      ((ry (rect (bs ! i)) + rh (rect (bs ! i)) + fallingSpeed > of_int (winH e) - floorHeight \<or>
        (\<exists>j<length bs. j \<noteq> i \<and>
            intersects ((rect (bs ! i))\<lparr>ry := ry (rect (bs ! i)) + fallingSpeed\<rparr>) (rect (bs ! j))))
         \<longrightarrow> \<not> moving (Block_update e i bs ! i) \<and>
              rect (Block_update e i bs ! i) = rect (bs ! i)) \<and>
      (\<not> (ry (rect (bs ! i)) + rh (rect (bs ! i)) + fallingSpeed > of_int (winH e) - floorHeight \<or>
        (\<exists>j<length bs. j \<noteq> i \<and>
            intersects ((rect (bs ! i))\<lparr>ry := ry (rect (bs ! i)) + fallingSpeed\<rparr>) (rect (bs ! j))))
         \<longrightarrow> moving (Block_update e i bs ! i) \<and>
              rect (Block_update e i bs ! i) =
                (rect (bs ! i))\<lparr>ry := ry (rect (bs ! i)) + fallingSpeed\<rparr>) \<and>
      ry (rect (bs ! i)) \<le> ry (rect (Block_update e i bs ! i))) \<and>
   (k < length ps \<longrightarrow>
      (collided (ps ! k) \<longrightarrow> Block_pl_update e k ps = ps) \<and>
      (\<not> collided (ps ! k) \<and>
       (ry (rect_pl (ps ! k)) + rh (rect_pl (ps ! k)) + speed_pl (ps ! k)
          > of_int (winH e) - FLOOR_HEIGHT \<or>
        (\<exists>j<length ps. j \<noteq> k \<and>
            intersects ((rect_pl (ps ! k))\<lparr>ry := ry (rect_pl (ps ! k)) + speed_pl (ps ! k)\<rparr>)
              (rect_pl (ps ! j))))
         \<longrightarrow> Block_pl_update e k ps ! k = (ps ! k)\<lparr>speed_pl := 0, collided := True\<rparr>) \<and>
      (\<not> collided (ps ! k) \<and>
       \<not> (ry (rect_pl (ps ! k)) + rh (rect_pl (ps ! k)) + speed_pl (ps ! k)
          > of_int (winH e) - FLOOR_HEIGHT \<or>
        (\<exists>j<length ps. j \<noteq> k \<and>
            intersects ((rect_pl (ps ! k))\<lparr>ry := ry (rect_pl (ps ! k)) + speed_pl (ps ! k)\<rparr>)
              (rect_pl (ps ! j))))
         \<longrightarrow> Block_pl_update e k ps ! k =
                (ps ! k)\<lparr>rect_pl := (rect_pl (ps ! k))
                                \<lparr>ry := ry (rect_pl (ps ! k)) + speed_pl (ps ! k)\<rparr>\<rparr>) \<and>
      (0 \<le> speed_pl (ps ! k) \<longrightarrow>
         ry (rect_pl (ps ! k)) \<le> ry (rect_pl (Block_pl_update e k ps ! k)) \<and>
         0 \<le> speed_pl (Block_pl_update e k ps ! k))) \<and>
   (collided (ps ! k) \<longrightarrow> (update_blocks_pl e ^^ n) ps ! k = ps ! k)"
proof -
  have tap: "((ry (rect (bs ! i)) + rh (rect (bs ! i)) + fallingSpeed > of_int (winH e) - floorHeight \<or>
        (\<exists>j<length bs. j \<noteq> i \<and>
            intersects ((rect (bs ! i))\<lparr>ry := ry (rect (bs ! i)) + fallingSpeed\<rparr>) (rect (bs ! j))))
         \<longrightarrow> \<not> moving (Block_update e i bs ! i) \<and>
              rect (Block_update e i bs ! i) = rect (bs ! i)) \<and>
      (\<not> (ry (rect (bs ! i)) + rh (rect (bs ! i)) + fallingSpeed > of_int (winH e) - floorHeight \<or>
        (\<exists>j<length bs. j \<noteq> i \<and>
            intersects ((rect (bs ! i))\<lparr>ry := ry (rect (bs ! i)) + fallingSpeed\<rparr>) (rect (bs ! j))))
         \<longrightarrow> moving (Block_update e i bs ! i) \<and>
              rect (Block_update e i bs ! i) =
                (rect (bs ! i))\<lparr>ry := ry (rect (bs ! i)) + fallingSpeed\<rparr>) \<and>
      ry (rect (bs ! i)) \<le> ry (rect (Block_update e i bs ! i))"
    if i: "i < length bs"
  proof -
    note c = Block_willCollide_iff[OF i, of e]
    note r = Block_update_rect[OF i, of e]
    note m = Block_update_moving[OF i, of e]
    have "ry (rect (bs ! i)) \<le> ry (rect (Block_update e i bs ! i))"
      unfolding r by (simp add: fallingSpeed_def)
    moreover have "Block_willCollide e i (bs[i := (bs ! i)\<lparr>speed := fallingSpeed\<rparr>]) \<Longrightarrow>
        \<not> moving (Block_update e i bs ! i) \<and> rect (Block_update e i bs ! i) = rect (bs ! i)"
      unfolding r m by simp
    moreover have "\<not> Block_willCollide e i (bs[i := (bs ! i)\<lparr>speed := fallingSpeed\<rparr>]) \<Longrightarrow>
        moving (Block_update e i bs ! i) \<and>
        rect (Block_update e i bs ! i) = (rect (bs ! i))\<lparr>ry := ry (rect (bs ! i)) + fallingSpeed\<rparr>"
      unfolding r m by simp
    ultimately show ?thesis using c by blast
  qed
  have pyo: "(collided (ps ! k) \<longrightarrow> Block_pl_update e k ps = ps) \<and>
      (\<not> collided (ps ! k) \<and>
       (ry (rect_pl (ps ! k)) + rh (rect_pl (ps ! k)) + speed_pl (ps ! k)
          > of_int (winH e) - FLOOR_HEIGHT \<or>
        (\<exists>j<length ps. j \<noteq> k \<and>
            intersects ((rect_pl (ps ! k))\<lparr>ry := ry (rect_pl (ps ! k)) + speed_pl (ps ! k)\<rparr>)
              (rect_pl (ps ! j))))
         \<longrightarrow> Block_pl_update e k ps ! k = (ps ! k)\<lparr>speed_pl := 0, collided := True\<rparr>) \<and>
      (\<not> collided (ps ! k) \<and>
       \<not> (ry (rect_pl (ps ! k)) + rh (rect_pl (ps ! k)) + speed_pl (ps ! k)
          > of_int (winH e) - FLOOR_HEIGHT \<or>
        (\<exists>j<length ps. j \<noteq> k \<and>
            intersects ((rect_pl (ps ! k))\<lparr>ry := ry (rect_pl (ps ! k)) + speed_pl (ps ! k)\<rparr>)
              (rect_pl (ps ! j))))
         \<longrightarrow> Block_pl_update e k ps ! k =
                (ps ! k)\<lparr>rect_pl := (rect_pl (ps ! k))
                                \<lparr>ry := ry (rect_pl (ps ! k)) + speed_pl (ps ! k)\<rparr>\<rparr>) \<and>
      (0 \<le> speed_pl (ps ! k) \<longrightarrow>
         ry (rect_pl (ps ! k)) \<le> ry (rect_pl (Block_pl_update e k ps ! k)) \<and>
         0 \<le> speed_pl (Block_pl_update e k ps ! k))"
    if k: "k < length ps"
  proof -
    note c = Block_pl_willCollide_iff[of e k ps]
    note r = Block_pl_update_result[OF k, of e]
    have a: "collided (ps ! k) \<Longrightarrow> Block_pl_update e k ps = ps"
      by (simp add: Block_pl_update_def)
    have b: "\<not> collided (ps ! k) \<Longrightarrow> Block_pl_willCollide e k ps \<Longrightarrow>
        Block_pl_update e k ps ! k = (ps ! k)\<lparr>speed_pl := 0, collided := True\<rparr>"
      unfolding r by simp
    have d: "\<not> collided (ps ! k) \<Longrightarrow> \<not> Block_pl_willCollide e k ps \<Longrightarrow>
        Block_pl_update e k ps ! k =
          (ps ! k)\<lparr>rect_pl := (rect_pl (ps ! k))\<lparr>ry := ry (rect_pl (ps ! k)) + speed_pl (ps ! k)\<rparr>\<rparr>"
      unfolding r by simp
    have f: "0 \<le> speed_pl (ps ! k) \<Longrightarrow>
         ry (rect_pl (ps ! k)) \<le> ry (rect_pl (Block_pl_update e k ps ! k)) \<and>
         0 \<le> speed_pl (Block_pl_update e k ps ! k)"
      unfolding r by simp
    from a b d f c show ?thesis by blast
  qed
  from tap pyo update_blocks_pl_collided[where bs=ps and i=k and e=e and n=n]
  show ?thesis by blast
qed

text \<open>
  An instance: a Tapioca block blocked by the block under it keeps its rectangle, a
  PyoroLike block in free fall moves down by its speed, and a collided PyoroLike block is
  the same after three rounds of the block loop.
\<close>

theorem block_never_rises_and_rests_while_blocked_witness:
  "(1::nat) < length [restingBlock, block_at 0 418] \<and>
   intersects ((rect (block_at 0 418))\<lparr>ry := ry (rect (block_at 0 418)) + fallingSpeed\<rparr>)
     (rect restingBlock) \<and>
   \<not> moving (Block_update env600 1 [restingBlock, block_at 0 418] ! 1) \<and>
   rect (Block_update env600 1 [restingBlock, block_at 0 418] ! 1) = rect (block_at 0 418) \<and>
   (0::nat) < length [block_pl_at 0 100] \<and> \<not> collided (block_pl_at 0 100) \<and>
   ry (rect_pl (Block_pl_update env600 0 [block_pl_at 0 100] ! 0)) = 103 \<and>
   collided ([floatingBlock] ! 0) \<and>
   (update_blocks_pl env600 ^^ 3) [floatingBlock] ! 0 = floatingBlock"
proof -
  let ?bs = "[restingBlock, block_at 0 418]"
  have len: "(1::nat) < length ?bs" by simp
  have hit: "intersects ((rect (block_at 0 418))\<lparr>ry := ry (rect (block_at 0 418)) + fallingSpeed\<rparr>)
               (rect restingBlock)"
    by (simp add: restingBlock_def block_defs)
  then have blocked: "\<exists>j<length ?bs. j \<noteq> 1 \<and>
      intersects ((rect (?bs ! 1))\<lparr>ry := ry (rect (?bs ! 1)) + fallingSpeed\<rparr>) (rect (?bs ! j))"
    by (intro exI[of _ 0]) simp
  have col: "collided ([floatingBlock] ! 0)"
    by (simp add: floatingBlock_def)
  note inst = block_never_rises_and_rests_while_blocked
         [where i=1 and bs="?bs" and e=env600 and ps="[floatingBlock]" and k=0 and n=3]
  from inst len blocked col
  have t1: "\<not> moving (Block_update env600 1 ?bs ! 1) \<and>
        rect (Block_update env600 1 ?bs ! 1) = rect (?bs ! 1) \<and>
        (update_blocks_pl env600 ^^ 3) [floatingBlock] ! 0 = [floatingBlock] ! 0"
    by blast
  let ?ps = "[block_pl_at 0 100]"
  have lenp: "(0::nat) < length ?ps" by simp
  have nc: "\<not> collided (?ps ! 0)" "\<not> collided (block_pl_at 0 100)"
    by (simp_all add: block_pl_at_def Block_pl_new_def)
  have free: "\<not> (ry (rect_pl (?ps ! 0)) + rh (rect_pl (?ps ! 0)) + speed_pl (?ps ! 0)
          > of_int (winH env600) - FLOOR_HEIGHT \<or>
        (\<exists>j<length ?ps. j \<noteq> 0 \<and>
            intersects ((rect_pl (?ps ! 0))\<lparr>ry := ry (rect_pl (?ps ! 0)) + speed_pl (?ps ! 0)\<rparr>)
              (rect_pl (?ps ! j))))"
    by (simp add: block_pl_at_def Block_pl_new_def env600_def FLOOR_HEIGHT_def)
  note inst2 = block_never_rises_and_rests_while_blocked
         [where i=1 and bs="?bs" and e=env600 and ps="?ps" and k=0 and n=3]
  from inst2 lenp nc(1) free
  have "Block_pl_update env600 0 ?ps ! 0 =
          (?ps ! 0)\<lparr>rect_pl := (rect_pl (?ps ! 0))\<lparr>ry := ry (rect_pl (?ps ! 0)) + speed_pl (?ps ! 0)\<rparr>\<rparr>"
    by blast
  then have t2: "ry (rect_pl (Block_pl_update env600 0 ?ps ! 0)) = 103"
    by (simp add: block_pl_at_def Block_pl_new_def)
  from len hit t1 lenp nc(2) t2 col show ?thesis by simp
qed

text \<open>
  Claim C3 as stated fails in Tapioca. A block falls onto a block resting on the floor
  and stops at 418. Once the lower block has been destroyed and erased, the next tick
  finds the stopped block moving again, at 421.
\<close>

theorem stopped_block_falls_again:
  "\<not> moving (fst (update_blocks env600 [restingBlock, block_at 0 418]) ! 1) \<and>
   ry (rect (fst (update_blocks env600 [restingBlock, block_at 0 418]) ! 1)) = 418 \<and>
   moving (fst (update_blocks env600
                  [fst (update_blocks env600 [restingBlock, block_at 0 418]) ! 1]) ! 0) \<and>
   ry (rect (fst (update_blocks env600
                  [fst (update_blocks env600 [restingBlock, block_at 0 418]) ! 1]) ! 0)) = 421"
  by (simp add: update_blocks_def upt_conv_Cons Let_def block_defs restingBlock_def)


section \<open>Facts about the double arithmetic\<close>


lemma pw_mono: "(i::int) \<le> j \<Longrightarrow> (2::real) powi i \<le> 2 powi j"
  by (rule power_int_increasing) simp_all

lemma pw_pos [simp]: "(0::real) < 2 powi (i::int)"
  by simp

lemma pw_suc: "(2::real) powi (e + 1) = 2 * 2 powi e"
  by (simp add: power_int_add)

lemma expo_down_props:
  "a < 2 powi (e + 1) \<Longrightarrow>
     expo_down n e a \<le> e \<and> e - int n \<le> expo_down n e a \<and>
     a < 2 powi (expo_down n e a + 1) \<and>
     (e - int n < expo_down n e a \<longrightarrow> 2 powi (expo_down n e a) \<le> a)"
proof (induction n arbitrary: e)
  case 0
  then show ?case by simp
next
  case (Suc n)
  show ?case
  proof (cases "a < 2 powi e")
    case True
    then have "a < 2 powi ((e - 1) + 1)" by simp
    from Suc.IH[OF this] True show ?thesis by auto
  next
    case False
    with Suc.prems show ?thesis by auto
  qed
qed

lemma expo_up_props:
  "2 powi e \<le> a \<Longrightarrow>
     e \<le> expo_up n e a \<and> expo_up n e a \<le> e + int n \<and>
     2 powi (expo_up n e a) \<le> a \<and>
     (expo_up n e a < e + int n \<longrightarrow> a < 2 powi (expo_up n e a + 1))"
proof (induction n arbitrary: e)
  case 0
  then show ?case by simp
next
  case (Suc n)
  show ?case
  proof (cases "2 powi (e + 1) \<le> a")
    case True
    from Suc.IH[OF this] True show ?thesis by auto
  next
    case False
    with Suc.prems show ?thesis by auto
  qed
qed

lemma expo_range: "- 1022 \<le> expo a \<and> expo a \<le> 1023"
proof (cases "1 \<le> a")
  case True
  then have "2 powi 0 \<le> a" by simp
  from expo_up_props[OF this, of 1023] True show ?thesis by (simp add: expo_def)
next
  case False
  then have "a < 2 powi (0 + 1)" by simp
  from expo_down_props[OF this, of 1022] False show ?thesis by (simp add: expo_def)
qed

lemma expo_lower: "- 1022 < expo a \<Longrightarrow> 2 powi (expo a) \<le> a"
proof (cases "1 \<le> a")
  case True
  then have "2 powi 0 \<le> a" by simp
  from expo_up_props[OF this, of 1023] True show ?thesis by (simp add: expo_def)
next
  case False
  assume h: "- 1022 < expo a"
  from False have "a < 2 powi (0 + 1)" by simp
  from expo_down_props[OF this, of 1022] False h show ?thesis by (simp add: expo_def)
qed

lemma expo_upper_small: "a < 1 \<Longrightarrow> a < 2 powi (expo a + 1) \<and> expo a \<le> - 1"
proof -
  assume a: "a < 1"
  then have "a < 2 powi (0 + 1)" by simp
  from expo_down_props[OF this, of 1022] a
  have p: "a < 2 powi (expo a + 1)" "expo a \<le> 0" "- 1022 < expo a \<longrightarrow> 2 powi (expo a) \<le> a"
    by (simp_all add: expo_def)
  have "expo a \<noteq> 0"
  proof
    assume "expo a = 0"
    with p(3) a show False by simp
  qed
  with p show ?thesis by simp
qed

lemma expo_le:
  assumes "- 1022 \<le> n" "a < 2 powi (n + 1)"
  shows "expo a \<le> n"
proof (rule ccontr)
  assume "\<not> expo a \<le> n"
  then have gt: "n + 1 \<le> expo a" by simp
  with assms(1) have "- 1022 < expo a" by simp
  then have "2 powi (expo a) \<le> a" by (rule expo_lower)
  moreover from gt have "(2::real) powi (n + 1) \<le> 2 powi (expo a)" by (rule pw_mono)
  ultimately show False using assms(2) by simp
qed

lemma round_half_even_err: "\<bar>of_int (round_half_even t) - t\<bar> \<le> 1 / 2"
  unfolding round_half_even_def Let_def by (auto; linarith)

lemma round_half_even_nonneg: "0 \<le> t \<Longrightarrow> 0 \<le> round_half_even t"
  unfolding round_half_even_def Let_def by (auto; linarith)

lemma round_half_even_nonpos: "t \<le> 0 \<Longrightarrow> round_half_even t \<le> 0"
proof -
  assume t: "t \<le> 0"
  have e: "\<bar>of_int (round_half_even t) - t\<bar> \<le> 1 / 2" by (rule round_half_even_err)
  then have "real_of_int (round_half_even t) \<le> 1 / 2" using t by linarith
  then show ?thesis by linarith
qed

lemma round_half_even_le: "t \<le> of_int m \<Longrightarrow> round_half_even t \<le> m"
proof -
  assume t: "t \<le> of_int m"
  have e: "\<bar>of_int (round_half_even t) - t\<bar> \<le> 1 / 2" by (rule round_half_even_err)
  then have "real_of_int (round_half_even t) \<le> of_int m + 1 / 2" using t by linarith
  then show ?thesis by linarith
qed

lemma binary64_nonneg: "0 \<le> x \<Longrightarrow> 0 \<le> binary64 x"
  by (simp add: binary64_def Let_def round_half_even_nonneg)

lemma binary64_nonpos: "x \<le> 0 \<Longrightarrow> binary64 x \<le> 0"
proof -
  assume x: "x \<le> 0"
  have "round_half_even (x / 2 powi (expo \<bar>x\<bar> - 52)) \<le> 0"
    using x by (intro round_half_even_nonpos) (simp add: divide_le_0_iff)
  then show ?thesis by (simp add: binary64_def Let_def mult_le_0_iff)
qed

lemma binary64_err:
  assumes "- 1022 \<le> n" "\<bar>x\<bar> < 2 powi (n + 1)"
  shows "\<bar>binary64 x - x\<bar> \<le> 2 powi (n - 53)"
proof (cases "x = 0")
  case True
  then show ?thesis by (simp add: binary64_def)
next
  case False
  define q :: real where "q = 2 powi (expo \<bar>x\<bar> - 52)"
  have q0: "0 < q" by (simp add: q_def)
  have "expo \<bar>x\<bar> \<le> n" using assms by (rule expo_le)
  then have "q \<le> 2 powi (n - 52)" unfolding q_def by (intro pw_mono) simp
  moreover have "(2::real) powi (n - 52) = 2 * 2 powi (n - 53)"
    using pw_suc[of "n - 53"] by simp
  ultimately have qle: "q / 2 \<le> 2 powi (n - 53)" by simp
  have "binary64 x - x = (of_int (round_half_even (x / q)) - x / q) * q"
    using False q0 by (simp add: binary64_def Let_def q_def[symmetric] field_simps)
  then have "\<bar>binary64 x - x\<bar> = \<bar>of_int (round_half_even (x / q)) - x / q\<bar> * q"
    using q0 by (simp add: abs_mult)
  also have "\<dots> \<le> (1 / 2) * q"
    using round_half_even_err[of "x / q"] q0 by (intro mult_right_mono) simp_all
  finally show ?thesis using qle by simp
qed

lemma binary64_le_one: "x \<le> 1 \<Longrightarrow> binary64 x \<le> 1"
proof -
  assume x: "x \<le> 1"
  consider "x \<le> 0" | "x = 1" | "0 < x" "x < 1" using x by linarith
  then show ?thesis
  proof cases
    case 1
    then have "binary64 x \<le> 0" by (rule binary64_nonpos)
    then show ?thesis by simp
  next
    case 2
    have "expo 1 = 0" by code_simp
    then show ?thesis using 2 by (simp add: binary64_def Let_def round_half_even_def power_int_minus)
  next
    case 3
    define e where "e = expo \<bar>x\<bar>"
    from 3 have ax: "\<bar>x\<bar> = x" by simp
    from expo_upper_small[of x] 3 have up: "x < 2 powi (e + 1)" "e \<le> - 1" by (simp_all add: e_def ax)
    define q :: real where "q = 2 powi (e - 52)"
    have q0: "0 < q" by (simp add: q_def)
    have "(2::real) powi (53 + (e - 52)) = 2 powi 53 * 2 powi (e - 52)"
      by (rule power_int_add) simp
    moreover have "53 + (e - 52) = e + 1" by simp
    ultimately have split: "(2::real) powi (e + 1) = 2 ^ 53 * q"
      by (simp add: q_def)
    with up(1) q0 have "x / q < 2 ^ 53" by (simp add: field_simps)
    then have "x / q \<le> of_int (2 ^ 53)" by simp
    then have "round_half_even (x / q) \<le> 2 ^ 53" by (rule round_half_even_le)
    then have "real_of_int (round_half_even (x / q)) \<le> real_of_int (2 ^ 53)"
      by (rule of_int_le_iff[THEN iffD2])
    then have "real_of_int (round_half_even (x / q)) \<le> 2 ^ 53" by simp
    then have "of_int (round_half_even (x / q)) * q \<le> 2 ^ 53 * q"
      using q0 by (intro mult_right_mono) simp_all
    also have "(2::real) ^ 53 * q = 2 powi (e + 1)"
      using split by simp
    also have "\<dots> \<le> 2 powi 0" using up(2) by (intro pw_mono) simp
    finally show ?thesis using 3 by (simp add: binary64_def Let_def e_def q_def)
  qed
qed

lemma int32_id: "- 2147483648 \<le> v \<Longrightarrow> v \<le> 2147483647 \<Longrightarrow> int32 v = v"
  by (simp add: int32_def)

lemma static_cast_int_floor:
  "0 \<le> p \<Longrightarrow> p < 2147483648 \<Longrightarrow> static_cast_int (Some p) = \<lfloor>p\<rfloor>"
  by (simp add: static_cast_int_def)

lemma quotient_range:
  assumes "0 < H" "- 50 \<le> y" "y \<le> of_int H"
  shows "- 50 \<le> y / real_of_int H \<and> y / real_of_int H \<le> 1"
proof -
  from assms(1) have H1: "1 \<le> real_of_int H" by simp
  then have H0: "0 < real_of_int H" by simp
  have "- 50 * real_of_int H \<le> - 50 * 1" using H1 by (intro mult_left_mono_neg) simp_all
  with assms(2) have "- 50 * real_of_int H \<le> y" by simp
  then have "- 50 \<le> y / real_of_int H" using H0 by (simp add: field_simps)
  moreover have "y / real_of_int H \<le> 1" using assms(3) H0 by simp
  ultimately show ?thesis by simp
qed

text \<open>
  The product that the callback converts: it is not negative, it stays below 5101, and it
  differs from the exact \<open>100 * (1 - y / H)\<close> by at most \<open>2^(-39)\<close>.
\<close>

lemma score_product_bounds:
  assumes "0 < winH e" "block_ok e b"
  shows "0 \<le> score_product e b \<and>
         \<bar>score_product e b - 100 * (1 - ry (rect b) / of_int (winH e))\<bar> \<le> 2 powi (- 39) \<and>
         score_product e b < 5101"
proof -
  define t where "t = ry (rect b) / real_of_int (winH e)"
  define q1 where "q1 = binary64 t"
  define h where "h = binary64 (1 - q1)"
  define p where "p = binary64 (100 * h)"
  have p: "score_product e b = p" by (simp add: score_product_def p_def h_def q1_def t_def)
  from assms have tr: "- 50 \<le> t" "t \<le> 1"
    using quotient_range[of "winH e" "ry (rect b)"] by (simp_all add: block_ok_def Block_size_def t_def)
  define d where "d = (2::real) powi (- 48)"
  define d' where "d' = (2::real) powi (- 41)"
  have small: "0 < d" "d \<le> 1 / 1000" "0 < d'" "d' \<le> 1 / 1000" "200 * d + d' \<le> 2 powi (- 39)"
    by (simp_all add: d_def d'_def)
  from tr have "\<bar>t\<bar> < 2 powi (5 + 1)" by simp
  then have "\<bar>q1 - t\<bar> \<le> 2 powi (5 - 53)" unfolding q1_def by (intro binary64_err) simp_all
  then have e1: "\<bar>q1 - t\<bar> \<le> d" by (simp add: d_def)
  have q1le: "q1 \<le> 1" unfolding q1_def using tr(2) by (rule binary64_le_one)
  then have h0: "0 \<le> h" unfolding h_def by (intro binary64_nonneg) simp
  from e1 have c1: "q1 - t \<le> d" "t - q1 \<le> d" by linarith+
  from c1 tr small have "\<bar>1 - q1\<bar> < 64" by linarith
  then have "\<bar>1 - q1\<bar> < 2 powi (5 + 1)" by simp
  then have "\<bar>h - (1 - q1)\<bar> \<le> 2 powi (5 - 53)" unfolding h_def by (intro binary64_err) simp_all
  then have e2: "\<bar>h - (1 - q1)\<bar> \<le> d" by (simp add: d_def)
  from h0 have p0: "0 \<le> p" unfolding p_def by (intro binary64_nonneg) simp
  from e2 have c2: "h - (1 - q1) \<le> d" "(1 - q1) - h \<le> d" by linarith+
  from c1 c2 tr small have "\<bar>100 * h\<bar> < 8192" by linarith
  then have "\<bar>100 * h\<bar> < 2 powi (12 + 1)" by simp
  then have "\<bar>p - 100 * h\<bar> \<le> 2 powi (12 - 53)" unfolding p_def by (intro binary64_err) simp_all
  then have e3: "\<bar>p - 100 * h\<bar> \<le> d'" by (simp add: d'_def)
  from e1 have b1: "q1 - t \<le> d" "t - q1 \<le> d" by linarith+
  from e2 have b2: "h - (1 - q1) \<le> d" "(1 - q1) - h \<le> d" by linarith+
  from e3 have b3: "p - 100 * h \<le> d'" "100 * h - p \<le> d'" by linarith+
  from b1 b2 b3 have "p - 100 * (1 - t) \<le> 200 * d + d'" "100 * (1 - t) - p \<le> 200 * d + d'"
    by argo+
  with small(5) have err: "\<bar>p - 100 * (1 - t)\<bar> \<le> 2 powi (- 39)" by linarith
  from b1 b2 b3 tr small have "p < 5101" by argo
  with p0 err show ?thesis by (simp add: p t_def)
qed


section \<open>The egg's hit and the score\<close>

lemmas tick_defs = Player_update_def Player_fire_def Player_egg_step_def Egg_update_def
  Player_move_x_def Player_jump_def Player_move_y_def Player_death_def Player_anims_def
  Animation_new_def Animation_start_def Animation_update_def Animation_isFinished_def
  Animation_isStarted_def size_minus_one_def Egg_new_def Player_new_def topCenter_def
  Block_intersects_def Block_destroy_def hitCallback_def static_cast_int_def int32_def
  gravity_def jumpSpeed_def Player_speed_def Egg_size_def Egg_speed_def
  noInput_def freshData_def standingPlayer_def flyingEgg_def

lemma hit_loop_Some:
  "hit_loop e r bs = Some (bs', hgt) \<Longrightarrow>
     \<exists>k<length bs. Block_intersects (bs ! k) r \<and> (\<forall>j<k. \<not> Block_intersects (bs ! j) r) \<and>
        bs' = bs[k := (bs ! k)\<lparr>destroyed := True\<rparr>] \<and>
        hgt = snd (Block_destroy e (bs ! k))"
proof (induction bs arbitrary: bs')
  case Nil
  then show ?case by simp
next
  case (Cons b bs)
  show ?case
  proof (cases "Block_intersects b r")
    case True
    with Cons.prems have "bs' = b\<lparr>destroyed := True\<rparr> # bs" "hgt = snd (Block_destroy e b)"
      by (auto simp add: Block_destroy_def)
    with True show ?thesis by (intro exI[of _ 0]) simp
  next
    case False
    with Cons.prems obtain rest' where rest: "hit_loop e r bs = Some (rest', hgt)" "bs' = b # rest'"
      by (auto split: option.splits)
    from Cons.IH[OF rest(1)] obtain k where k: "k < length bs" "Block_intersects (bs ! k) r"
        "\<forall>j<k. \<not> Block_intersects (bs ! j) r" "rest' = bs[k := (bs ! k)\<lparr>destroyed := True\<rparr>]"
        "hgt = snd (Block_destroy e (bs ! k))"
      by blast
    have "\<forall>j<Suc k. \<not> Block_intersects ((b # bs) ! j) r"
      using False k(3) by (auto simp add: less_Suc_eq_0_disj)
    with k rest(2) show ?thesis by (intro exI[of _ "Suc k"]) simp
  qed
qed

lemma hit_loop_None: "hit_loop e r bs = None \<longleftrightarrow> (\<forall>b\<in>set bs. \<not> Block_intersects b r)"
  by (induction bs) (auto simp add: Block_destroy_def split: option.splits)

lemma hitCallback_fields:
  "blocks (hitCallback hgt d) = blocks d \<and> player (hitCallback hgt d) = player d \<and>
   highScore (hitCallback hgt d) = max (score (hitCallback hgt d)) (highScore d)"
  by (simp add: hitCallback_def Let_def)

text \<open>
  What one destroyed block does to the score, in a window of positive height and away from
  the largest \<open>int\<close>: the score grows by the integer part of the rounded product, which
  lies between 0 and 5100.
\<close>

lemma hitCallback_destroy:
  assumes "0 < winH e" "block_ok e b" "- 2147483648 \<le> score d" "score d \<le> 2147478547"
  shows "score (hitCallback (snd (Block_destroy e b)) d) = score d + \<lfloor>score_product e b\<rfloor> \<and>
         0 \<le> \<lfloor>score_product e b\<rfloor> \<and> \<lfloor>score_product e b\<rfloor> \<le> 5100"
proof -
  from score_product_bounds[OF assms(1,2)]
  have p: "0 \<le> score_product e b" "score_product e b < 5101" by simp_all
  then have "0 \<le> \<lfloor>score_product e b\<rfloor>" "\<lfloor>score_product e b\<rfloor> < 5101"
    by (simp_all add: floor_less_iff)
  then have fl: "0 \<le> \<lfloor>score_product e b\<rfloor>" "\<lfloor>score_product e b\<rfloor> \<le> 5100"
    by simp_all
  from p have cast: "static_cast_int (Some (score_product e b)) = \<lfloor>score_product e b\<rfloor>"
    by (intro static_cast_int_floor) simp_all
  have "int32 (score d + \<lfloor>score_product e b\<rfloor>) = score d + \<lfloor>score_product e b\<rfloor>"
    using assms(3,4) fl by (intro int32_id) linarith+
  with cast fl assms(1) show ?thesis
    by (simp add: hitCallback_def Block_destroy_def Let_def score_product_def)
qed

lemma hit_loop_ok:
  assumes "hit_loop e r bs = Some (bs', hgt)" "\<forall>b\<in>set bs. block_ok e b"
  shows "(\<exists>b. block_ok e b \<and> hgt = snd (Block_destroy e b)) \<and> (\<forall>b\<in>set bs'. block_ok e b)"
proof -
  from hit_loop_Some[OF assms(1)] obtain k where k: "k < length bs"
      "bs' = bs[k := (bs ! k)\<lparr>destroyed := True\<rparr>]" "hgt = snd (Block_destroy e (bs ! k))"
    by blast
  from k(1) assms(2) have ok: "block_ok e (bs ! k)" by simp
  have "block_ok e ((bs ! k)\<lparr>destroyed := True\<rparr>)" using ok by (simp add: block_ok_def)
  with assms(2) have "\<forall>b\<in>set bs'. block_ok e b"
    unfolding k(2) using set_update_subset_insert[of bs k] by blast
  with ok k(3) show ?thesis by blast
qed

lemma Egg_update_score:
  assumes "\<forall>b\<in>set (blocks d). block_ok e b" "0 < winH e"
    and "- 2147483648 \<le> score d" "score d \<le> 2147478547"
  shows "score d \<le> score (snd (Egg_update e g d)) \<and>
         score (snd (Egg_update e g d)) \<le> score d + 5100 \<and>
         highScore d \<le> highScore (snd (Egg_update e g d)) \<and>
         (score d \<le> highScore d \<longrightarrow>
            score (snd (Egg_update e g d)) \<le> highScore (snd (Egg_update e g d))) \<and>
         (\<forall>b\<in>set (blocks (snd (Egg_update e g d))). block_ok e b)"
proof (cases "hit_loop e (egg_rect g) (blocks d)")
  case None
  with assms show ?thesis by (simp add: Egg_update_def Let_def)
next
  case (Some a)
  obtain bs' hgt where a: "a = (bs', hgt)" by (cases a)
  from hit_loop_ok[OF Some[unfolded a] assms(1)] obtain b where
    b: "block_ok e b" "hgt = snd (Block_destroy e b)" and ok': "\<forall>b\<in>set bs'. block_ok e b"
    by blast
  let ?d = "d\<lparr>blocks := bs'\<rparr>"
  have "- 2147483648 \<le> score ?d" "score ?d \<le> 2147478547" using assms(3,4) by simp_all
  from hitCallback_destroy[OF assms(2) b(1) this] b(2)
  have sc: "score d \<le> score (hitCallback hgt ?d)" "score (hitCallback hgt ?d) \<le> score d + 5100"
    by simp_all
  have hs: "highScore (hitCallback hgt ?d) = max (score (hitCallback hgt ?d)) (highScore d)"
      "blocks (hitCallback hgt ?d) = bs'"
    using hitCallback_fields[of hgt ?d] by simp_all
  have "snd (Egg_update e g d) = d \<or> snd (Egg_update e g d) = hitCallback hgt ?d"
    using Some a by (simp add: Egg_update_def Let_def)
  then show ?thesis
  proof
    assume "snd (Egg_update e g d) = d"
    with assms show ?thesis by simp
  next
    assume "snd (Egg_update e g d) = hitCallback hgt ?d"
    with sc hs ok' show ?thesis by simp
  qed
qed

lemma Player_egg_step_score:
  assumes "\<forall>b\<in>set (blocks d). block_ok e b" "0 < winH e"
    and "- 2147483648 \<le> score d" "score d \<le> 2147478547"
  shows "score d \<le> score (Player_egg_step e d) \<and>
         score (Player_egg_step e d) \<le> score d + 5100 \<and>
         highScore d \<le> highScore (Player_egg_step e d) \<and>
         (score d \<le> highScore d \<longrightarrow> score (Player_egg_step e d) \<le> highScore (Player_egg_step e d)) \<and>
         (\<forall>b\<in>set (blocks (Player_egg_step e d)). block_ok e b)"
proof (cases "egg (player d)")
  case None
  with assms show ?thesis by (simp add: Player_egg_step_def)
next
  case (Some g)
  obtain g' d' where eu: "Egg_update e g d = (g', d')" by (cases "Egg_update e g d")
  from Egg_update_score[OF assms, of g] Some eu show ?thesis
    by (simp add: Player_egg_step_def)
qed

lemma Player_update_fields:
  "score (Player_update e inp d) = score (Player_egg_step e (d\<lparr>player := Player_fire inp (player d)\<rparr>)) \<and>
   highScore (Player_update e inp d) = highScore (Player_egg_step e (d\<lparr>player := Player_fire inp (player d)\<rparr>)) \<and>
   blocks (Player_update e inp d) = blocks (Player_egg_step e (d\<lparr>player := Player_fire inp (player d)\<rparr>))"
  by (simp add: Player_update_def Let_def)

lemma Player_update_score:
  assumes "\<forall>b\<in>set (blocks d). block_ok e b" "0 < winH e"
    and "- 2147483648 \<le> score d" "score d \<le> 2147478547"
  shows "score d \<le> score (Player_update e inp d) \<and>
         score (Player_update e inp d) \<le> score d + 5100 \<and>
         highScore d \<le> highScore (Player_update e inp d) \<and>
         (score d \<le> highScore d \<longrightarrow> score (Player_update e inp d) \<le> highScore (Player_update e inp d)) \<and>
         (\<forall>b\<in>set (blocks (Player_update e inp d)). block_ok e b)"
proof -
  let ?d1 = "d\<lparr>player := Player_fire inp (player d)\<rparr>"
  have "\<forall>b\<in>set (blocks ?d1). block_ok e b" "- 2147483648 \<le> score ?d1" "score ?d1 \<le> 2147478547"
    using assms by simp_all
  from Player_egg_step_score[OF this(1) assms(2) this(2,3)] show ?thesis
    by (simp add: Player_update_fields)
qed

lemma Block_update_ok:
  assumes "\<forall>b\<in>set bs. block_ok e b"
  shows "\<forall>b\<in>set (Block_update e i bs). block_ok e b"
proof (cases "i < length bs")
  case False
  then have "bs[i := Block_update e i bs ! i] = bs" by (simp add: list_update_beyond not_less)
  then have "Block_update e i bs = bs"
    using Block_update_as_update[of e i bs] by simp
  with assms show ?thesis by simp
next
  case True
  let ?b = "bs ! i" and ?b' = "Block_update e i bs ! i"
  from True assms have ok: "block_ok e ?b" by simp
  have "block_ok e ?b'"
  proof (cases "Block_willCollide e i (bs[i := (bs ! i)\<lparr>speed := fallingSpeed\<rparr>])")
    case c: True
    with True ok show ?thesis by (simp add: block_ok_def Block_update_rect)
  next
    case c: False
    with Block_willCollide_iff[OF True, of e]
    have "ry (rect ?b) + rh (rect ?b) + fallingSpeed \<le> of_int (winH e) - floorHeight" by auto
    with ok have "ry (rect ?b) + fallingSpeed \<le> of_int (winH e)"
      by (simp add: block_ok_def floorHeight_def)
    with c True ok show ?thesis
      by (simp add: block_ok_def Block_update_rect fallingSpeed_def)
  qed
  moreover have "set (Block_update e i bs) \<subseteq> insert ?b' (set bs)"
    using Block_update_as_update[of e i bs] set_update_subset_insert[of bs i ?b'] by simp
  ultimately show ?thesis using assms by blast
qed

lemma blocks_loop_ok:
  "\<forall>b\<in>set bs. block_ok e b \<Longrightarrow> \<forall>b\<in>set (fst (blocks_loop e js bs)). block_ok e b"
proof (induction js arbitrary: bs)
  case Nil
  then show ?case by simp
next
  case (Cons j js)
  from Block_update_ok[OF Cons.prems, of j]
  have ok: "\<forall>b\<in>set (Block_update e j bs). block_ok e b" .
  from Cons.IH[OF ok] ok show ?case by (simp add: Let_def)
qed

lemma spawn_block_ok:
  assumes "\<forall>b\<in>set bs. block_ok e b" "0 < winH e"
  shows "\<forall>b\<in>set (spawn_block e k bs). block_ok e b"
  using assms by (auto simp add: spawn_block_def block_ok_def Block_new_def Block_size_def)

lemma Playing_update_score:
  assumes "0 < winH e" "\<forall>b\<in>set (blocks d). block_ok e b"
    and "- 2147483648 \<le> score d" "score d \<le> 2147478547"
  shows "score d \<le> score (snd (Playing_update e inp lane d)) \<and>
         score (snd (Playing_update e inp lane d)) \<le> score d + 5100 \<and>
         highScore d \<le> highScore (snd (Playing_update e inp lane d)) \<and>
         (score d \<le> highScore d \<longrightarrow>
            score (snd (Playing_update e inp lane d)) \<le> highScore (snd (Playing_update e inp lane d))) \<and>
         (\<forall>b\<in>set (blocks (snd (Playing_update e inp lane d))). block_ok e b)"
proof -
  define d1 where "d1 = (case lane of None \<Rightarrow> d | Some k \<Rightarrow> d\<lparr>blocks := spawn_block e k (blocks d)\<rparr>)"
  have d1: "score d1 = score d" "highScore d1 = highScore d" "\<forall>b\<in>set (blocks d1). block_ok e b"
    using assms spawn_block_ok[OF assms(2,1)] by (auto simp add: d1_def split: option.splits)
  obtain bs over where ub: "update_blocks e (blocks d1) = (bs, over)" by (cases "update_blocks e (blocks d1)")
  have bs: "\<forall>b\<in>set bs. block_ok e b"
    using blocks_loop_ok[OF d1(3), of "[0..<length (blocks d1)]"] ub by (simp add: update_blocks_def)
  let ?d1b = "d1\<lparr>blocks := bs\<rparr>"
  have okb: "\<forall>b\<in>set (blocks ?d1b). block_ok e b" using bs by simp
  have rg: "- 2147483648 \<le> score ?d1b" "score ?d1b \<le> 2147478547" using assms(3,4) d1(1) by simp_all
  note pu = Player_update_score[OF okb assms(1) rg, of inp]
  have res: "snd (Playing_update e inp lane d) =
         (if over then ?d1b
          else if dead (player (Player_update e inp ?d1b)) then Player_update e inp ?d1b
          else (Player_update e inp ?d1b)\<lparr>blocks := filter (\<lambda>block. \<not> destroyed block) (blocks (Player_update e inp ?d1b))\<rparr>)"
    using ub by (simp add: Playing_update_def Let_def d1_def[symmetric] changeScene_def)
  show ?thesis
    unfolding res using d1 bs pu by auto
qed


section \<open>Projectiles\<close>

lemmas pl_defs = Player_pl_update_def Player_pl_fire_def Player_pl_bullet_step_def
  Bullet_update_def Bullet_new_def Player_pl_move_x_def Player_pl_jump_def Player_pl_move_y_def
  Player_pl_new_def Block_pl_new_def Block_pl_intersects_def block_pl_at_def topCenter_def
  intersects_def GRAVITY_def FLOOR_HEIGHT_def SPEED_def env600_def noInput_def
  flyingBullet_def airbornePlayer_def

lemma intersects_in_bounds:
  assumes "intersects r b" "in_window e b"
  shows "\<not> (rx r + rw r \<le> 0 \<or> rx r > of_int (winW e))"
  using assms by (auto simp add: intersects_def in_window_def)

lemma hit_loop_pl_Some:
  "hit_loop_pl r bs = Some bs' \<Longrightarrow>
     \<exists>k<length bs. Block_pl_intersects (bs ! k) r \<and> (\<forall>j<k. \<not> Block_pl_intersects (bs ! j) r) \<and>
        bs' = bs[k := (bs ! k)\<lparr>destroyed_pl := True\<rparr>]"
proof (induction bs arbitrary: bs')
  case Nil
  then show ?case by simp
next
  case (Cons b bs)
  show ?case
  proof (cases "Block_pl_intersects b r")
    case True
    with Cons.prems have "bs' = b\<lparr>destroyed_pl := True\<rparr> # bs" by simp
    with True show ?thesis by (intro exI[of _ 0]) simp
  next
    case False
    with Cons.prems obtain rest' where rest: "hit_loop_pl r bs = Some rest'" "bs' = b # rest'"
      by (auto split: option.splits)
    from Cons.IH[OF rest(1)] obtain k where k: "k < length bs" "Block_pl_intersects (bs ! k) r"
        "\<forall>j<k. \<not> Block_pl_intersects (bs ! j) r" "rest' = bs[k := (bs ! k)\<lparr>destroyed_pl := True\<rparr>]"
      by blast
    have "\<forall>j<Suc k. \<not> Block_pl_intersects ((b # bs) ! j) r"
      using False k(3) by (auto simp add: less_Suc_eq_0_disj)
    with k rest(2) show ?thesis by (intro exI[of _ "Suc k"]) simp
  qed
qed

lemma hit_loop_pl_None: "hit_loop_pl r bs = None \<longleftrightarrow> (\<forall>b\<in>set bs. \<not> Block_pl_intersects b r)"
  by (induction bs) (auto split: option.splits)

lemma Egg_update_hit:
  assumes fly: "Egg_flying g"
    and win: "\<forall>b\<in>set (blocks d). in_window e (rect b)"
    and hit: "\<exists>b\<in>set (blocks d). Block_intersects b (egg_rect g)"
  shows "\<exists>k<length (blocks d).
           Block_intersects (blocks d ! k) (egg_rect g) \<and>
           (\<forall>j<k. \<not> Block_intersects (blocks d ! j) (egg_rect g)) \<and>
           blocks (snd (Egg_update e g d)) = (blocks d)[k := (blocks d ! k)\<lparr>destroyed := True\<rparr>] \<and>
           egg_rect (fst (Egg_update e g d)) = egg_rect g \<and>
           velocity (fst (Egg_update e g d)) = velocity g \<and>
           \<not> Egg_flying (fst (Egg_update e g d))"
proof -
  from hit obtain b where b: "b \<in> set (blocks d)" "intersects (egg_rect g) (rect b)"
    by (auto simp add: Block_intersects_def)
  with win have inb: "\<not> (rx (egg_rect g) + rw (egg_rect g) \<le> 0 \<or> rx (egg_rect g) > of_int (winW e))"
    by (intro intersects_in_bounds[of _ "rect b"]) auto
  from hit have "hit_loop e (egg_rect g) (blocks d) \<noteq> None" by (simp add: hit_loop_None)
  then obtain bs' hgt where some: "hit_loop e (egg_rect g) (blocks d) = Some (bs', hgt)" by auto
  from fly have au: "Animation_update (explosionAnim g) = explosionAnim g"
    by (simp add: Egg_flying_def Animation_update_def)
  from fly have nf: "\<not> Animation_isFinished (explosionAnim g)" "\<not> Animation_isStarted (explosionAnim g)"
    by (simp_all add: Egg_flying_def Animation_isFinished_def Animation_isStarted_def)
  have res: "Egg_update e g d =
      (g\<lparr>explosionAnim := Animation_start (explosionAnim g)\<rparr>, hitCallback hgt (d\<lparr>blocks := bs'\<rparr>))"
    using au nf inb some by (simp add: Egg_update_def Let_def)
  from hit_loop_Some[OF some] obtain k where k: "k < length (blocks d)"
      "Block_intersects (blocks d ! k) (egg_rect g)"
      "\<forall>j<k. \<not> Block_intersects (blocks d ! j) (egg_rect g)"
      "bs' = (blocks d)[k := (blocks d ! k)\<lparr>destroyed := True\<rparr>]"
    by blast
  show ?thesis
    apply (rule exI[of _ k])
    using k by (simp add: res hitCallback_fields Egg_flying_def Animation_start_def)
qed

lemma Bullet_update_hit:
  assumes act: "active b"
    and win: "\<forall>c\<in>set bs. in_window e (rect_pl c)"
    and hit: "\<exists>c\<in>set bs. Block_pl_intersects c (bullet_rect b)"
  shows "\<exists>k<length bs.
           Block_pl_intersects (bs ! k) (bullet_rect b) \<and>
           (\<forall>j<k. \<not> Block_pl_intersects (bs ! j) (bullet_rect b)) \<and>
           snd (Bullet_update e b bs) = bs[k := (bs ! k)\<lparr>destroyed_pl := True\<rparr>] \<and>
           bullet_rect (fst (Bullet_update e b bs)) = bullet_rect b \<and>
           bullet_velocity (fst (Bullet_update e b bs)) = bullet_velocity b \<and>
           \<not> active (fst (Bullet_update e b bs))"
proof -
  from hit obtain c where c: "c \<in> set bs" "intersects (bullet_rect b) (rect_pl c)"
    by (auto simp add: Block_pl_intersects_def)
  with win have inb: "\<not> (rx (bullet_rect b) + rw (bullet_rect b) \<le> 0 \<or> rx (bullet_rect b) > of_int (winW e))"
    by (intro intersects_in_bounds[of _ "rect_pl c"]) auto
  from hit have "hit_loop_pl (bullet_rect b) bs \<noteq> None" by (simp add: hit_loop_pl_None)
  then obtain bs' where some: "hit_loop_pl (bullet_rect b) bs = Some bs'" by auto
  have res: "Bullet_update e b bs = (b\<lparr>active := False\<rparr>, bs')"
    using act inb some by (simp add: Bullet_update_def Let_def)
  from hit_loop_pl_Some[OF some] obtain k where k: "k < length bs"
      "Block_pl_intersects (bs ! k) (bullet_rect b)"
      "\<forall>j<k. \<not> Block_pl_intersects (bs ! j) (bullet_rect b)"
      "bs' = bs[k := (bs ! k)\<lparr>destroyed_pl := True\<rparr>]"
    by blast
  show ?thesis
    apply (rule exI[of _ k])
    using k by (simp add: res)
qed

text \<open>
  The blocks that \<open>Playing::update\<close> spawns lie inside a window that is eight lanes of
  50 wide, so the premise on the blocks in the next theorem holds in the game.
\<close>

lemma spawn_block_in_window:
  assumes "winW e = 400" "0 \<le> k" "k \<le> 7"
  shows "in_window e (rect (last (spawn_block e k bs)))"
proof -
  have "rect (last (spawn_block e k bs)) =
          \<lparr> rx = of_int (k * 400) / 8, ry = - 50, rw = 50, rh = 50 \<rparr>"
    using assms by (simp add: spawn_block_def Block_new_def Block_size_def numBlocksX_def)
  moreover have "(0::real) \<le> of_int (k * 400) / 8" using assms by simp
  moreover have "of_int (k * 400) / 8 + 50 \<le> (400::real)"
  proof -
    have "real_of_int (k * 400) \<le> real_of_int (7 * 400)"
      using assms by (intro of_int_le_iff[THEN iffD2]) simp
    then show ?thesis by simp
  qed
  ultimately show ?thesis using assms by (simp add: in_window_def)
qed

text \<open>
  Claim C5. In a tick in which a flying projectile intersects at least one block (the
  blocks lying inside the window horizontally, as all blocks of the game do), the update
  of the projectile marks exactly one block destroyed, namely the first intersecting block
  in stored order: the vector after the update is the vector before it with that one
  block's flag set. The projectile keeps its rectangle and its velocity and is no longer
  flying afterwards. This holds for Tapioca's egg and for PyoroLike's bullet.
\<close>

theorem projectile_destroys_first_block_and_stops:
  "(Egg_flying g \<and> (\<forall>b\<in>set (blocks d). in_window e (rect b)) \<and>
      (\<exists>b\<in>set (blocks d). Block_intersects b (egg_rect g)) \<longrightarrow>
      (\<exists>k<length (blocks d).
           Block_intersects (blocks d ! k) (egg_rect g) \<and>
           (\<forall>j<k. \<not> Block_intersects (blocks d ! j) (egg_rect g)) \<and>
           blocks (snd (Egg_update e g d)) = (blocks d)[k := (blocks d ! k)\<lparr>destroyed := True\<rparr>] \<and>
           egg_rect (fst (Egg_update e g d)) = egg_rect g \<and>
           velocity (fst (Egg_update e g d)) = velocity g \<and>
           \<not> Egg_flying (fst (Egg_update e g d)))) \<and>
   (active q \<and> (\<forall>c\<in>set ps. in_window e (rect_pl c)) \<and>
      (\<exists>c\<in>set ps. Block_pl_intersects c (bullet_rect q)) \<longrightarrow>
      (\<exists>k<length ps.
           Block_pl_intersects (ps ! k) (bullet_rect q) \<and>
           (\<forall>j<k. \<not> Block_pl_intersects (ps ! j) (bullet_rect q)) \<and>
           snd (Bullet_update e q ps) = ps[k := (ps ! k)\<lparr>destroyed_pl := True\<rparr>] \<and>
           bullet_rect (fst (Bullet_update e q ps)) = bullet_rect q \<and>
           bullet_velocity (fst (Bullet_update e q ps)) = bullet_velocity q \<and>
           \<not> active (fst (Bullet_update e q ps))))"
  using Egg_update_hit[of g d e] Bullet_update_hit[of q ps e] by blast

text \<open>
  An instance: the egg in flight overlaps the second of two blocks, and the bullet the
  second of two blocks.
\<close>

theorem projectile_destroys_first_block_and_stops_witness:
  "Egg_flying flyingEgg \<and>
   in_window env600 (rect restingBlock) \<and> in_window env600 (rect (block_at 300 301)) \<and>
   Block_intersects (block_at 300 301) (egg_rect flyingEgg) \<and>
   blocks (snd (Egg_update env600 flyingEgg (freshData\<lparr>blocks := [restingBlock, block_at 300 301]\<rparr>)))
     = [restingBlock, (block_at 300 301)\<lparr>destroyed := True\<rparr>] \<and>
   \<not> Egg_flying (fst (Egg_update env600 flyingEgg
                        (freshData\<lparr>blocks := [restingBlock, block_at 300 301]\<rparr>))) \<and>
   active flyingBullet \<and>
   in_window env600 (rect_pl floatingBlock) \<and> in_window env600 (rect_pl (block_pl_at 250 270)) \<and>
   Block_pl_intersects (block_pl_at 250 270) (bullet_rect flyingBullet) \<and>
   snd (Bullet_update env600 flyingBullet [floatingBlock, block_pl_at 250 270])
     = [floatingBlock, (block_pl_at 250 270)\<lparr>destroyed_pl := True\<rparr>] \<and>
   \<not> active (fst (Bullet_update env600 flyingBullet [floatingBlock, block_pl_at 250 270]))"
proof -
  let ?d = "freshData\<lparr>blocks := [restingBlock, block_at 300 301]\<rparr>"
  let ?ps = "[floatingBlock, block_pl_at 250 270]"
  have fly: "Egg_flying flyingEgg"
    by (simp add: Egg_flying_def flyingEgg_def Egg_new_def Animation_new_def)
  have win: "in_window env600 (rect restingBlock)" "in_window env600 (rect (block_at 300 301))"
    by (simp_all add: in_window_def restingBlock_def block_defs)
  have no0: "\<not> Block_intersects restingBlock (egg_rect flyingEgg)"
    by (simp add: Block_intersects_def restingBlock_def block_defs flyingEgg_def Egg_new_def
        Egg_size_def)
  have hit1: "Block_intersects (block_at 300 301) (egg_rect flyingEgg)"
    by (simp add: Block_intersects_def block_defs flyingEgg_def Egg_new_def Egg_size_def)
  have act: "active flyingBullet"
    by (simp add: flyingBullet_def Bullet_new_def)
  have winp: "in_window env600 (rect_pl floatingBlock)"
      "in_window env600 (rect_pl (block_pl_at 250 270))"
    by (simp_all add: in_window_def floatingBlock_def block_pl_at_def Block_pl_new_def env600_def)
  have nop0: "\<not> Block_pl_intersects floatingBlock (bullet_rect flyingBullet)"
    by (simp add: floatingBlock_def pl_defs)
  have hitp1: "Block_pl_intersects (block_pl_at 250 270) (bullet_rect flyingBullet)"
    by (simp add: pl_defs)
  note inst = projectile_destroys_first_block_and_stops[of flyingEgg ?d env600 flyingBullet ?ps]
  from inst fly win hit1
  obtain k where k: "k < length (blocks ?d)" "Block_intersects (blocks ?d ! k) (egg_rect flyingEgg)"
      "blocks (snd (Egg_update env600 flyingEgg ?d)) = (blocks ?d)[k := (blocks ?d ! k)\<lparr>destroyed := True\<rparr>]"
      "\<not> Egg_flying (fst (Egg_update env600 flyingEgg ?d))"
    by auto
  from k(1,2) no0 have "k = 1" by (cases k) auto
  with k(3) have egg_part:
    "blocks (snd (Egg_update env600 flyingEgg ?d)) = [restingBlock, (block_at 300 301)\<lparr>destroyed := True\<rparr>]"
    by simp
  from inst act winp hitp1
  obtain j where j: "j < length ?ps" "Block_pl_intersects (?ps ! j) (bullet_rect flyingBullet)"
      "snd (Bullet_update env600 flyingBullet ?ps) = ?ps[j := (?ps ! j)\<lparr>destroyed_pl := True\<rparr>]"
      "\<not> active (fst (Bullet_update env600 flyingBullet ?ps))"
    by auto
  from j(1,2) nop0 have "j = 1" by (cases j) auto
  with j(3) have bullet_part:
    "snd (Bullet_update env600 flyingBullet ?ps) = [floatingBlock, (block_pl_at 250 270)\<lparr>destroyed_pl := True\<rparr>]"
    by simp
  from fly win hit1 egg_part k(4) act winp hitp1 bullet_part j(4) show ?thesis by blast
qed

text \<open>
  Claim C2, as amended. Tapioca accepts a fire request exactly when the launch timer
  has reached zero, whether or not an egg is still there, and the new egg replaces the
  old one. PyoroLike accepts it exactly when the player has no bullet yet, or the bullet
  is inactive and the fire timer has reached zero. An accepted request stores the new
  projectile and restarts the timer; a rejected one changes nothing. In both programs the
  player holds its projectile in one optional field, so it never has more than one.
\<close>

theorem fire_rule:
  "(Player_fire inp p \<noteq> p \<longleftrightarrow> keyZ_down inp \<and> eggLaunchTimer p) \<and>
   (keyZ_down inp \<and> eggLaunchTimer p \<longrightarrow>
      egg (Player_fire inp p) = Some (Egg_new (topCenter (player_rect p)) (facingRight p)) \<and>
      \<not> eggLaunchTimer (Player_fire inp p)) \<and>
   (Player_pl_fire inp q \<noteq> q \<longleftrightarrow>
      keyZ_down inp \<and> (bullet q = None \<or> (\<exists>b. bullet q = Some b \<and> \<not> active b \<and> bulletFireTimer q))) \<and>
   (keyZ_down inp \<and> (bullet q = None \<or> (\<exists>b. bullet q = Some b \<and> \<not> active b \<and> bulletFireTimer q)) \<longrightarrow>
      bullet (Player_pl_fire inp q) = Some (Bullet_new (topCenter (player_rect_pl q)) (facingRight_pl q)) \<and>
      \<not> bulletFireTimer (Player_pl_fire inp q))"
proof -
  have a: "Player_fire inp p \<noteq> p \<longleftrightarrow> keyZ_down inp \<and> eggLaunchTimer p"
  proof (rule iffI)
    assume "Player_fire inp p \<noteq> p"
    then show "keyZ_down inp \<and> eggLaunchTimer p" by (auto simp add: Player_fire_def split: if_splits)
  next
    assume h: "keyZ_down inp \<and> eggLaunchTimer p"
    then have "\<not> eggLaunchTimer (Player_fire inp p)" by (simp add: Player_fire_def)
    with h show "Player_fire inp p \<noteq> p" by auto
  qed
  have b: "Player_pl_fire inp q \<noteq> q \<longleftrightarrow>
      keyZ_down inp \<and> (bullet q = None \<or> (\<exists>b. bullet q = Some b \<and> \<not> active b \<and> bulletFireTimer q))"
    (is "?L \<longleftrightarrow> ?R")
  proof (rule iffI)
    assume ?L
    then show ?R by (auto simp add: Player_pl_fire_def split: if_splits option.splits)
  next
    assume r: ?R
    then have new: "bullet (Player_pl_fire inp q) \<noteq> None \<and> \<not> bulletFireTimer (Player_pl_fire inp q)"
      by (auto simp add: Player_pl_fire_def)
    show ?L
    proof (cases "bullet q")
      case None
      with new show ?thesis by auto
    next
      case (Some b)
      with r have "bulletFireTimer q" by auto
      with new show ?thesis by auto
    qed
  qed
  have c: "keyZ_down inp \<and> eggLaunchTimer p \<longrightarrow>
      egg (Player_fire inp p) = Some (Egg_new (topCenter (player_rect p)) (facingRight p)) \<and>
      \<not> eggLaunchTimer (Player_fire inp p)"
    by (simp add: Player_fire_def)
  have d: "keyZ_down inp \<and> (bullet q = None \<or> (\<exists>b. bullet q = Some b \<and> \<not> active b \<and> bulletFireTimer q)) \<longrightarrow>
      bullet (Player_pl_fire inp q) = Some (Bullet_new (topCenter (player_rect_pl q)) (facingRight_pl q)) \<and>
      \<not> bulletFireTimer (Player_pl_fire inp q)"
    by (auto simp add: Player_pl_fire_def)
  from a b c d show ?thesis by blast
qed

text \<open>
  An instance: the standing player's first throw, and the first shot of PyoroLike's
  player.
\<close>

theorem fire_rule_witness:
  "keyZ_down (noInput\<lparr>keyZ_down := True\<rparr>) \<and> eggLaunchTimer standingPlayer \<and>
   egg (Player_fire (noInput\<lparr>keyZ_down := True\<rparr>) standingPlayer) =
     Some (Egg_new (120, 450) True) \<and>
   Player_fire noInput standingPlayer = standingPlayer \<and>
   bullet Player_pl_new = None \<and>
   bullet (Player_pl_fire (noInput\<lparr>keyZ_down := True\<rparr>) Player_pl_new) =
     Some (Bullet_new (75, 50) True) \<and>
   Player_pl_fire noInput Player_pl_new = Player_pl_new"
  using fire_rule[of "noInput\<lparr>keyZ_down := True\<rparr>" standingPlayer Player_pl_new]
        fire_rule[of noInput standingPlayer Player_pl_new]
  by (simp add: noInput_def standingPlayer_def Player_new_def Player_pl_new_def topCenter_def
      env600_def floorHeight_def)

text \<open>
  Claim C2 as stated fails in both programs. PyoroLike's first shot is accepted although
  the fire timer has not reached zero (there is no bullet yet). Tapioca accepts a request
  while the previous egg is still flying: the timer alone decides, and the flying egg is
  replaced by the new one.
\<close>

theorem fire_accepted_without_both_conditions:
  "\<not> bulletFireTimer Player_pl_new \<and>
   bullet (Player_pl_fire (noInput\<lparr>keyZ_down := True\<rparr>) Player_pl_new) =
     Some (Bullet_new (75, 50) True) \<and>
   Egg_flying flyingEgg \<and>
   egg (Player_fire (noInput\<lparr>keyZ_down := True\<rparr>) (standingPlayer\<lparr>egg := Some flyingEgg\<rparr>)) =
     Some (Egg_new (120, 450) True) \<and>
   Egg_new (120, 450) True \<noteq> flyingEgg"
proof -
  have "egg_rect (Egg_new (120, 450) True) \<noteq> egg_rect flyingEgg"
    by (simp add: flyingEgg_def Egg_new_def Egg_size_def)
  then have "Egg_new (120, 450) True \<noteq> flyingEgg" by auto
  then show ?thesis
    by (simp add: Player_fire_def Player_pl_fire_def noInput_def standingPlayer_def Player_new_def
        Player_pl_new_def topCenter_def env600_def floorHeight_def Egg_flying_def flyingEgg_def
        Egg_new_def Animation_new_def)
qed


section \<open>The score\<close>

text \<open>
  Claim C7, as amended. Take a window of positive height \<open>H\<close>, a block of the game at
  height \<open>y\<close> and a score that is at least 5100 below the largest \<open>int\<close>. When the block
  is destroyed, the score grows by the integer part of the product that the callback
  computes in double arithmetic: the value is truncated, not rounded. That product is
  within \<open>2^(-39)\<close> of the exact \<open>100 * (1 - y / H)\<close>, so the increase is the integer part
  of the exact value unless the exact value lies that close to a whole number; it is
  between 0 and 5100. The high score becomes the maximum of the new score and the old
  high score. Over a tick of \<open>Playing\<close> under the same conditions neither the score nor
  the high score decreases, the score grows by at most 5100, a high score that is at
  least the score stays so, and the blocks remain blocks of the game.
\<close>

theorem score_truncated_and_monotone:
  "(0 < winH e \<and> block_ok e b \<and> - 2147483648 \<le> score d \<and> score d \<le> 2147478547 \<longrightarrow>
      score (hitCallback (snd (Block_destroy e b)) d) = score d + \<lfloor>score_product e b\<rfloor> \<and>
      \<bar>score_product e b - 100 * (1 - ry (rect b) / of_int (winH e))\<bar> \<le> 2 powi (- 39) \<and>
      0 \<le> \<lfloor>score_product e b\<rfloor> \<and> \<lfloor>score_product e b\<rfloor> \<le> 5100 \<and>
      highScore (hitCallback (snd (Block_destroy e b)) d) =
        max (score (hitCallback (snd (Block_destroy e b)) d)) (highScore d)) \<and>
   (0 < winH e \<and> (\<forall>c\<in>set (blocks s). block_ok e c) \<and>
    - 2147483648 \<le> score s \<and> score s \<le> 2147478547 \<longrightarrow>
      score s \<le> score (snd (Playing_update e inp lane s)) \<and>
      score (snd (Playing_update e inp lane s)) \<le> score s + 5100 \<and>
      highScore s \<le> highScore (snd (Playing_update e inp lane s)) \<and>
      (score s \<le> highScore s \<longrightarrow>
         score (snd (Playing_update e inp lane s)) \<le> highScore (snd (Playing_update e inp lane s))) \<and>
      (\<forall>c\<in>set (blocks (snd (Playing_update e inp lane s))). block_ok e c))"
proof -
  have one: "score (hitCallback (snd (Block_destroy e b)) d) = score d + \<lfloor>score_product e b\<rfloor> \<and>
      \<bar>score_product e b - 100 * (1 - ry (rect b) / of_int (winH e))\<bar> \<le> 2 powi (- 39) \<and>
      0 \<le> \<lfloor>score_product e b\<rfloor> \<and> \<lfloor>score_product e b\<rfloor> \<le> 5100 \<and>
      highScore (hitCallback (snd (Block_destroy e b)) d) =
        max (score (hitCallback (snd (Block_destroy e b)) d)) (highScore d)"
    if h: "0 < winH e" "block_ok e b" "- 2147483648 \<le> score d" "score d \<le> 2147478547"
    using hitCallback_destroy[OF h] score_product_bounds[OF h(1,2)]
          hitCallback_fields[of "snd (Block_destroy e b)" d]
    by simp
  have tick: "score s \<le> score (snd (Playing_update e inp lane s)) \<and>
      score (snd (Playing_update e inp lane s)) \<le> score s + 5100 \<and>
      highScore s \<le> highScore (snd (Playing_update e inp lane s)) \<and>
      (score s \<le> highScore s \<longrightarrow>
         score (snd (Playing_update e inp lane s)) \<le> highScore (snd (Playing_update e inp lane s))) \<and>
      (\<forall>c\<in>set (blocks (snd (Playing_update e inp lane s))). block_ok e c)"
    if h: "0 < winH e" "\<forall>c\<in>set (blocks s). block_ok e c"
          "- 2147483648 \<le> score s" "score s \<le> 2147478547"
    using Playing_update_score[OF h] .
  from one tick show ?thesis by blast
qed

text \<open>
  An instance: a block destroyed at height 301, where the exact value is \<open>49.83\<close>, is
  worth 49 points, and a tick in which the egg in flight hits it does not lower the score.
\<close>

theorem score_truncated_and_monotone_witness:
  "0 < winH env600 \<and> block_ok env600 (block_at 300 301) \<and>
   - 2147483648 \<le> score freshData \<and> score freshData \<le> 2147478547 \<and>
   score (hitCallback (snd (Block_destroy env600 (block_at 300 301))) freshData) = 49 \<and>
   score (freshData\<lparr>player := standingPlayer\<lparr>egg := Some flyingEgg\<rparr>, blocks := [block_at 300 301]\<rparr>)
     \<le> score (snd (Playing_update env600 noInput None
                 (freshData\<lparr>player := standingPlayer\<lparr>egg := Some flyingEgg\<rparr>,
                            blocks := [block_at 300 301]\<rparr>)))"
proof -
  let ?b = "block_at 300 301"
  let ?s = "freshData\<lparr>player := standingPlayer\<lparr>egg := Some flyingEgg\<rparr>, blocks := [?b]\<rparr>"
  have h: "0 < winH env600" by (simp add: env600_def)
  have ok: "block_ok env600 ?b" by (simp add: block_ok_def block_defs)
  then have oks: "\<forall>c\<in>set (blocks ?s). block_ok env600 c" by simp
  have rg: "- 2147483648 \<le> score freshData" "score freshData \<le> 2147478547"
      "- 2147483648 \<le> score ?s" "score ?s \<le> 2147478547"
    by (simp_all add: freshData_def)
  have exact: "100 * (1 - ry (rect ?b) / of_int (winH env600)) = (299 / 6 :: real)"
    by (simp add: block_defs)
  note inst = score_truncated_and_monotone[of env600 ?b freshData ?s noInput None]
  from inst h ok rg(1,2)
  have sc: "score (hitCallback (snd (Block_destroy env600 ?b)) freshData)
              = score freshData + \<lfloor>score_product env600 ?b\<rfloor>"
    and near0: "\<bar>score_product env600 ?b - 100 * (1 - ry (rect ?b) / of_int (winH env600))\<bar>
                  \<le> 2 powi (- 39)"
    by blast+
  from near0 have near: "\<bar>score_product env600 ?b - 299 / 6\<bar> \<le> 2 powi (- 39)"
    by (simp only: exact)
  have "(2::real) powi (- 39) \<le> 1 / 10" by simp
  with near have "49 \<le> score_product env600 ?b" "score_product env600 ?b < 50" by linarith+
  then have "\<lfloor>score_product env600 ?b\<rfloor> = 49" by (simp add: floor_eq_iff)
  with sc have s49: "score (hitCallback (snd (Block_destroy env600 ?b)) freshData) = 49"
    by (simp add: freshData_def)
  from inst h oks rg(3,4)
  have "score ?s \<le> score (snd (Playing_update env600 noInput None ?s))" by blast
  with h ok rg(1,2) s49 show ?thesis by blast
qed

text \<open>
  Claim C7 as stated fails: the increase is not rounded. A block destroyed at height 1
  in the window of height 600 has the exact value \<open>99.83\<close>, which rounds to 100, and the
  code adds 99.
\<close>

theorem score_is_not_rounded:
  "score (hitCallback (snd (Block_destroy env600 (block_at 0 1))) freshData) - score freshData = 99 \<and>
   round (100 * (1 - ry (rect (block_at 0 1)) / of_int (winH env600))) = 100"
proof -
  let ?b = "block_at 0 1"
  have h: "0 < winH env600" by (simp add: env600_def)
  have ok: "block_ok env600 ?b" by (simp add: block_ok_def block_defs)
  have rg: "- 2147483648 \<le> score freshData" "score freshData \<le> 2147478547"
    by (simp_all add: freshData_def)
  have exact: "100 * (1 - ry (rect ?b) / of_int (winH env600)) = (599 / 6 :: real)"
    by (simp add: block_defs)
  from score_product_bounds[OF h ok]
  have "\<bar>score_product env600 ?b - 100 * (1 - ry (rect ?b) / of_int (winH env600))\<bar>
          \<le> 2 powi (- 39)"
    by blast
  then have near: "\<bar>score_product env600 ?b - 599 / 6\<bar> \<le> 2 powi (- 39)"
    by (simp only: exact)
  have "(2::real) powi (- 39) \<le> 1 / 10" by simp
  with near have "99 \<le> score_product env600 ?b" "score_product env600 ?b < 100" by linarith+
  then have "\<lfloor>score_product env600 ?b\<rfloor> = 99" by (simp add: floor_eq_iff)
  with hitCallback_destroy[OF h ok rg]
  have "score (hitCallback (snd (Block_destroy env600 ?b)) freshData) - score freshData = 99"
    by simp
  moreover have "round (599 / 6 :: real) = 100" by (simp add: round_def)
  ultimately show ?thesis by (simp only: exact)
qed

text \<open>
  The rounding of the doubles shows where the exact value is a whole number: a block
  destroyed at height 204 has the exact value 66, the product computed in doubles is just
  below it, and the score grows by 65.
\<close>

lemma score_at_204:
  "score (hitCallback (snd (Block_destroy env600 (block_at 0 204))) freshData) = 65"
  by code_simp


section \<open>The player\<close>

lemma blocked_loop_eq:
  "blocked_loop nr bs v = (if \<exists>b\<in>set bs. Block_intersects b nr then 0 else v)"
  by (induction bs) auto

lemma blocked_loop_pl_eq:
  "blocked_loop_pl r nr bs v =
     (if \<exists>b\<in>set bs. \<not> Block_pl_intersects b r \<and> Block_pl_intersects b nr then 0 else v)"
  by (induction bs) auto

lemma Player_move_x_rx:
  "rx (player_rect (Player_move_x e inp bs p)) =
     (case proposed_vx e inp (player_rect p) of
        None \<Rightarrow> rx (player_rect p)
      | Some vx \<Rightarrow>
          if \<exists>b\<in>set bs. Block_intersects b ((player_rect p)\<lparr>rx := rx (player_rect p) + vx\<rparr>)
          then rx (player_rect p) else rx (player_rect p) + vx)"
  by (auto simp add: Player_move_x_def proposed_vx_def blocked_loop_eq Let_def)

lemma Player_pl_move_x_rx:
  "rx (player_rect_pl (Player_pl_move_x e inp bs p)) =
     (if \<exists>b\<in>set bs. \<not> Block_pl_intersects b (player_rect_pl p) \<and>
            Block_pl_intersects b ((player_rect_pl p)\<lparr>rx := rx (player_rect_pl p) + proposed_vx_pl e inp (player_rect_pl p)\<rparr>)
      then rx (player_rect_pl p)
      else rx (player_rect_pl p) + proposed_vx_pl e inp (player_rect_pl p))"
  by (auto simp add: Player_pl_move_x_def proposed_vx_pl_def blocked_loop_pl_eq Let_def)

lemma hit_loop_rects: "hit_loop e r bs = Some (bs', hgt) \<Longrightarrow> map rect bs' = map rect bs \<and> map moving bs' = map moving bs"
proof -
  assume "hit_loop e r bs = Some (bs', hgt)"
  from hit_loop_Some[OF this] obtain k where "k < length bs" "bs' = bs[k := (bs ! k)\<lparr>destroyed := True\<rparr>]"
    by blast
  then show ?thesis by (simp add: map_update list_update_same_conv)
qed

lemma Egg_update_rects:
  "map rect (blocks (snd (Egg_update e g d))) = map rect (blocks d) \<and>
   map moving (blocks (snd (Egg_update e g d))) = map moving (blocks d) \<and>
   player (snd (Egg_update e g d)) = player d"
proof (cases "hit_loop e (egg_rect g) (blocks d)")
  case None
  then show ?thesis by (simp add: Egg_update_def Let_def)
next
  case (Some a)
  obtain bs' hgt where a: "a = (bs', hgt)" by (cases a)
  from hit_loop_rects[OF Some[unfolded a]] Some a show ?thesis
    by (simp add: Egg_update_def Let_def hitCallback_fields)
qed

lemma Player_egg_step_rects:
  "map rect (blocks (Player_egg_step e d)) = map rect (blocks d) \<and>
   map moving (blocks (Player_egg_step e d)) = map moving (blocks d) \<and>
   player_rect (player (Player_egg_step e d)) = player_rect (player d) \<and>
   vy (player (Player_egg_step e d)) = vy (player d) \<and>
   grounded (player (Player_egg_step e d)) = grounded (player d) \<and>
   dead (player (Player_egg_step e d)) = dead (player d) \<and>
   facingRight (player (Player_egg_step e d)) = facingRight (player d)"
proof (cases "egg (player d)")
  case None
  then show ?thesis by (simp add: Player_egg_step_def)
next
  case (Some g)
  obtain g' d' where eu: "Egg_update e g d = (g', d')" by (cases "Egg_update e g d")
  from Egg_update_rects[of e g d] Some eu show ?thesis
    by (simp add: Player_egg_step_def)
qed

lemma ex_block_rect_cong:
  assumes "map rect bs = map rect bs'"
  shows "(\<exists>b\<in>set bs. Block_intersects b r) = (\<exists>b\<in>set bs'. Block_intersects b r)"
proof -
  from assms have img: "rect ` set bs = rect ` set bs'" by (metis set_map)
  have "(\<exists>b\<in>set cs. Block_intersects b r) = (\<exists>q\<in>rect ` set cs. intersects r q)" for cs
    unfolding Block_intersects_def by blast
  then show ?thesis using img by metis
qed

lemma Player_fire_rect [simp]:
  "player_rect (Player_fire inp p) = player_rect p" "vy (Player_fire inp p) = vy p"
  "grounded (Player_fire inp p) = grounded p" "dead (Player_fire inp p) = dead p"
  by (simp_all add: Player_fire_def)

lemma Player_update_rx:
  "rx (player_rect (player (Player_update e inp d))) =
   rx (player_rect (Player_move_x e inp (blocks d) (player d)))"
proof -
  let ?d1 = "d\<lparr>player := Player_fire inp (player d)\<rparr>"
  let ?d2 = "Player_egg_step e ?d1"
  have r: "player_rect (player ?d2) = player_rect (player d)"
    using Player_egg_step_rects[of e ?d1] by simp
  have m: "map rect (blocks ?d2) = map rect (blocks d)"
    using Player_egg_step_rects[of e ?d1] by simp
  have "rx (player_rect (player (Player_update e inp d))) =
        rx (player_rect (Player_move_x e inp (blocks ?d2) (player ?d2)))"
    by (simp add: Player_update_def Let_def Player_anims_def Player_death_def Player_move_y_def
        Player_jump_def split: prod.splits)
  also have "\<dots> = rx (player_rect (Player_move_x e inp (blocks d) (player d)))"
    unfolding Player_move_x_rx r using ex_block_rect_cong[OF m] by (simp split: option.splits)
  finally show ?thesis .
qed

text \<open>
  Claim C6, as amended. The horizontal displacement of a tick is all or nothing in both
  programs: the player's \<open>x\<close> either stays or changes by the whole proposed step. In
  Tapioca the step is cancelled exactly when some block intersects the proposed
  rectangle. In PyoroLike it is cancelled exactly when some block intersects the proposed
  rectangle without intersecting the player's current rectangle: a block that already
  overlaps the player does not stop the step.
\<close>

theorem horizontal_step_all_or_nothing:
  "rx (player_rect (player (Player_update e inp d))) =
     (case proposed_vx e inp (player_rect (player d)) of
        None \<Rightarrow> rx (player_rect (player d))
      | Some vx \<Rightarrow>
          if \<exists>b\<in>set (blocks d).
               Block_intersects b ((player_rect (player d))\<lparr>rx := rx (player_rect (player d)) + vx\<rparr>)
          then rx (player_rect (player d)) else rx (player_rect (player d)) + vx) \<and>
   rx (player_rect_pl (Player_pl_move_x e inp ps q)) =
     (if \<exists>b\<in>set ps. \<not> Block_pl_intersects b (player_rect_pl q) \<and>
            Block_pl_intersects b ((player_rect_pl q)\<lparr>rx := rx (player_rect_pl q) + proposed_vx_pl e inp (player_rect_pl q)\<rparr>)
      then rx (player_rect_pl q)
      else rx (player_rect_pl q) + proposed_vx_pl e inp (player_rect_pl q))"
  by (simp only: Player_update_rx Player_move_x_rx Player_pl_move_x_rx)

text \<open>
  An instance: with the right key held, the standing player moves by 8 when the way is
  free and stays when a block is in the way; PyoroLike's player moves by 10 when the way
  is free.
\<close>

theorem horizontal_step_all_or_nothing_witness:
  "rx (player_rect (player (Player_update env600 (noInput\<lparr>keyRight_pressed := True\<rparr>)
         (freshData\<lparr>player := standingPlayer\<rparr>)))) = 108 \<and>
   rx (player_rect (player (Player_update env600 (noInput\<lparr>keyRight_pressed := True\<rparr>)
         (freshData\<lparr>player := standingPlayer, blocks := [block_at 100 469]\<rparr>)))) = 100 \<and>
   rx (player_rect_pl (Player_pl_move_x env600 (noInput\<lparr>keyRight_pressed := True\<rparr>) []
         airbornePlayer)) = 70"
  using horizontal_step_all_or_nothing
          [of env600 "noInput\<lparr>keyRight_pressed := True\<rparr>" "freshData\<lparr>player := standingPlayer\<rparr>"
              "[]" airbornePlayer]
        horizontal_step_all_or_nothing
          [of env600 "noInput\<lparr>keyRight_pressed := True\<rparr>"
              "freshData\<lparr>player := standingPlayer, blocks := [block_at 100 469]\<rparr>"
              "[]" airbornePlayer]
  by (simp add: proposed_vx_def proposed_vx_pl_def noInput_def freshData_def standingPlayer_def
      Player_new_def Player_speed_def Block_intersects_def block_defs airbornePlayer_def
      Player_pl_new_def SPEED_def Let_def)

text \<open>
  Claim C6 as stated fails in PyoroLike. At the top of a jump a falling block overlaps
  the player's head by two pixels; it also intersects the rectangle proposed by a step to
  the right, and the step is applied in full. The vertical move then takes the player
  below the block, and the update ends without a failed assertion.
\<close>

theorem overlapping_block_does_not_cancel_step:
  "Block_pl_intersects (block_pl_at 100 151)
     ((player_rect_pl airbornePlayer)\<lparr>rx := rx (player_rect_pl airbornePlayer) + SPEED\<rparr>) \<and>
   Player_pl_update env600 (noInput\<lparr>keyRight_pressed := True\<rparr>) (airbornePlayer, [block_pl_at 100 151]) =
     Inr (airbornePlayer\<lparr>vy_pl := 3, grounded_pl := True,
                         player_rect_pl := (player_rect_pl airbornePlayer)\<lparr>rx := 70, ry := 202\<rparr>\<rparr>,
          [block_pl_at 100 151])"
  by (simp add: pl_defs Let_def)

lemma crush_loop_eq:
  "crush_loop r bs dd = (dd \<or> (\<exists>b\<in>set bs. moving b \<and> Block_intersects b r))"
  by (induction bs) auto

lemma Player_death_dead:
  "dead (Player_death bs p) =
     (dead p \<or> (grounded p \<and> (\<exists>b\<in>set bs. moving b \<and> Block_intersects b (player_rect p))))"
  by (simp add: Player_death_def crush_loop_eq)

lemma Player_move_x_keeps [simp]:
  "dead (Player_move_x e inp bs p) = dead p" "vy (Player_move_x e inp bs p) = vy p"
  "grounded (Player_move_x e inp bs p) = grounded p"
  "ry (player_rect (Player_move_x e inp bs p)) = ry (player_rect p)"
  "rh (player_rect (Player_move_x e inp bs p)) = rh (player_rect p)"
  by (simp_all add: Player_move_x_def Let_def)

lemma Player_jump_keeps [simp]:
  "dead (Player_jump inp p) = dead p" "player_rect (Player_jump inp p) = player_rect p"
  by (simp_all add: Player_jump_def)

lemma Player_move_y_dead [simp]: "dead (Player_move_y e bs p) = dead p"
  by (simp add: Player_move_y_def Let_def split: prod.splits)

text \<open>
  Claim C9. In Tapioca, the program the spec takes as canonical, the player is dead after
  a tick exactly when it was dead before or, at the end of the tick, it is grounded and
  some moving block intersects its rectangle. An overlap with a block that is not moving,
  or an overlap while the player is not grounded, does not kill, and a dead player stays
  dead.
\<close>

theorem crushed_iff_grounded_under_moving_block:
  "dead (player (Player_update e inp d)) \<longleftrightarrow>
     dead (player d) \<or>
     (grounded (player (Player_update e inp d)) \<and>
      (\<exists>b\<in>set (blocks (Player_update e inp d)).
          moving b \<and> Block_intersects b (player_rect (player (Player_update e inp d)))))"
proof -
  let ?d2 = "Player_egg_step e (d\<lparr>player := Player_fire inp (player d)\<rparr>)"
  let ?p5 = "Player_move_y e (blocks ?d2) (Player_jump inp (Player_move_x e inp (blocks ?d2) (player ?d2)))"
  have pl: "player (Player_update e inp d) = Player_anims (Player_death (blocks ?d2) ?p5)"
    and bl: "blocks (Player_update e inp d) = blocks ?d2"
    by (simp_all add: Player_update_def Let_def)
  have d5: "dead ?p5 = dead (player d)"
    using Player_egg_step_rects[of e "d\<lparr>player := Player_fire inp (player d)\<rparr>"] by simp
  have an: "dead (Player_anims q) = dead q" "grounded (Player_anims q) = grounded q"
      "player_rect (Player_anims q) = player_rect q" for q
    by (simp_all add: Player_anims_def)
  have dk: "grounded (Player_death bs q) = grounded q" "player_rect (Player_death bs q) = player_rect q" for bs q
    by (simp_all add: Player_death_def)
  show ?thesis
    unfolding pl bl an dk Player_death_dead d5 by blast
qed

text \<open>
  An instance: a falling block has reached the head of the player standing on the floor.
\<close>

theorem crushed_iff_grounded_under_moving_block_witness:
  "\<not> dead standingPlayer \<and>
   grounded (player (Player_update env600 noInput
      (freshData\<lparr>player := standingPlayer, blocks := [block_at 100 406]\<rparr>))) \<and>
   moving (block_at 100 406) \<and>
   Block_intersects (block_at 100 406) (player_rect (player (Player_update env600 noInput
      (freshData\<lparr>player := standingPlayer, blocks := [block_at 100 406]\<rparr>)))) \<and>
   dead (player (Player_update env600 noInput
      (freshData\<lparr>player := standingPlayer, blocks := [block_at 100 406]\<rparr>)))"
proof -
  let ?d = "freshData\<lparr>player := standingPlayer, blocks := [block_at 100 406]\<rparr>"
  have nd: "\<not> dead standingPlayer" by (simp add: standingPlayer_def Player_new_def)
  have g: "grounded (player (Player_update env600 noInput ?d))"
    by (simp add: tick_defs block_defs Let_def)
  have m: "moving (block_at 100 406)" by (simp add: block_defs)
  have i: "Block_intersects (block_at 100 406) (player_rect (player (Player_update env600 noInput ?d)))"
    by (simp add: tick_defs block_defs Let_def)
  have b: "blocks (Player_update env600 noInput ?d) = [block_at 100 406]"
    by (simp add: tick_defs block_defs Let_def)
  from crushed_iff_grounded_under_moving_block[of env600 noInput ?d] g m i b
  have "dead (player (Player_update env600 noInput ?d))" by simp
  with nd g m i show ?thesis by blast
qed

lemma contact_loop_eq:
  "contact_loop nr bs (g, t, v) =
     (case find (\<lambda>b. Block_intersects b nr) bs of
        None \<Rightarrow> (g, t, v)
      | Some b \<Rightarrow>
          if moving b then (if v > 0 then (True, True, fallingSpeed) else (g, t, fallingSpeed))
          else (True, True, 0))"
  by (induction bs) auto

lemma contact_loop_pl_eq:
  "contact_loop_pl nr bs (g, t, v) =
     (case find (\<lambda>b. Block_pl_intersects b nr) bs of
        None \<Rightarrow> (g, t, v)
      | Some b \<Rightarrow>
          if speed_pl b > 0 then (if v > 0 then (True, True, speed_pl b) else (g, t, speed_pl b))
          else (True, True, 0))"
  by (induction bs) auto

text \<open>
  Claim C10, as amended. Take a tick in which the first block, in stored order, that the
  player's proposed vertical move contacts is a falling block, while the player's vertical
  velocity after gravity is at most zero. The contact sets the velocity to the block's
  fall speed and does not ground the player. If the player's bottom edge moved by that
  speed stays above the floor line, the tick ends so: velocity equal to the fall speed,
  \<open>grounded\<close> unchanged, and the player moved down by the fall speed. Otherwise the floor
  rule applies on top of it: the player ends the vertical move grounded, with velocity
  zero, where it was. This holds for Tapioca and for PyoroLike.
\<close>

theorem upward_contact_with_falling_block:
  "(find (\<lambda>b. Block_intersects b ((player_rect p)\<lparr>ry := ry (player_rect p) + (vy p + gravity)\<rparr>)) bs = Some c \<and>
    moving c \<and> vy p + gravity \<le> 0 \<longrightarrow>
      (if ry (player_rect p) + rh (player_rect p) + fallingSpeed > of_int (winH e) - floorHeight
       then vy (Player_move_y e bs p) = 0 \<and> grounded (Player_move_y e bs p) \<and>
            player_rect (Player_move_y e bs p) = player_rect p
       else vy (Player_move_y e bs p) = fallingSpeed \<and>
            grounded (Player_move_y e bs p) = grounded p \<and>
            player_rect (Player_move_y e bs p) =
              (player_rect p)\<lparr>ry := ry (player_rect p) + fallingSpeed\<rparr>)) \<and>
   (find (\<lambda>b. Block_pl_intersects b ((player_rect_pl q)\<lparr>ry := ry (player_rect_pl q) + (vy_pl q + GRAVITY)\<rparr>)) ps = Some k \<and>
    speed_pl k > 0 \<and> vy_pl q + GRAVITY \<le> 0 \<longrightarrow>
      (if ry (player_rect_pl q) + rh (player_rect_pl q) + speed_pl k > of_int (winH e) - FLOOR_HEIGHT
       then vy_pl (Player_pl_move_y e ps q) = 0 \<and> grounded_pl (Player_pl_move_y e ps q) \<and>
            player_rect_pl (Player_pl_move_y e ps q) = player_rect_pl q
       else vy_pl (Player_pl_move_y e ps q) = speed_pl k \<and>
            grounded_pl (Player_pl_move_y e ps q) = grounded_pl q \<and>
            player_rect_pl (Player_pl_move_y e ps q) =
              (player_rect_pl q)\<lparr>ry := ry (player_rect_pl q) + speed_pl k\<rparr>))"
  by (simp add: Player_move_y_def Player_pl_move_y_def contact_loop_eq contact_loop_pl_eq Let_def)

text \<open>
  An instance: a player that has just jumped off a stack, with a falling block overhead,
  in either program.
\<close>

theorem upward_contact_with_falling_block_witness:
  "find (\<lambda>b. Block_intersects b
           ((player_rect (standingPlayer\<lparr>vy := - 20, grounded := False,
                 player_rect := (player_rect standingPlayer)\<lparr>ry := 300\<rparr>\<rparr>))\<lparr>ry := 300 + (- 20 + gravity)\<rparr>))
      [block_at 100 240] = Some (block_at 100 240) \<and>
   moving (block_at 100 240) \<and> - 20 + gravity \<le> 0 \<and>
   vy (Player_move_y env600 [block_at 100 240]
         (standingPlayer\<lparr>vy := - 20, grounded := False,
              player_rect := (player_rect standingPlayer)\<lparr>ry := 300\<rparr>\<rparr>)) = fallingSpeed \<and>
   \<not> grounded (Player_move_y env600 [block_at 100 240]
         (standingPlayer\<lparr>vy := - 20, grounded := False,
              player_rect := (player_rect standingPlayer)\<lparr>ry := 300\<rparr>\<rparr>)) \<and>
   find (\<lambda>b. Block_pl_intersects b
           ((player_rect_pl (airbornePlayer\<lparr>vy_pl := - 20\<rparr>))\<lparr>ry := 199 + (- 20 + GRAVITY)\<rparr>))
      [block_pl_at 50 140] = Some (block_pl_at 50 140) \<and>
   speed_pl (block_pl_at 50 140) > 0 \<and> - 20 + GRAVITY \<le> 0 \<and>
   vy_pl (Player_pl_move_y env600 [block_pl_at 50 140] (airbornePlayer\<lparr>vy_pl := - 20\<rparr>)) = 3 \<and>
   \<not> grounded_pl (Player_pl_move_y env600 [block_pl_at 50 140] (airbornePlayer\<lparr>vy_pl := - 20\<rparr>))"
proof -
  let ?p = "standingPlayer\<lparr>vy := - 20, grounded := False,
              player_rect := (player_rect standingPlayer)\<lparr>ry := 300\<rparr>\<rparr>"
  let ?q = "airbornePlayer\<lparr>vy_pl := - 20\<rparr>"
  have f: "find (\<lambda>b. Block_intersects b ((player_rect ?p)\<lparr>ry := ry (player_rect ?p) + (vy ?p + gravity)\<rparr>))
             [block_at 100 240] = Some (block_at 100 240)"
    by (simp add: standingPlayer_def Player_new_def Block_intersects_def block_defs gravity_def)
  have m: "moving (block_at 100 240)" by (simp add: block_defs)
  have v: "vy ?p + gravity \<le> 0" by (simp add: gravity_def)
  have fl: "\<not> ry (player_rect ?p) + rh (player_rect ?p) + fallingSpeed > of_int (winH env600) - floorHeight"
    by (simp add: standingPlayer_def Player_new_def block_defs)
  have fp: "find (\<lambda>b. Block_pl_intersects b
               ((player_rect_pl ?q)\<lparr>ry := ry (player_rect_pl ?q) + (vy_pl ?q + GRAVITY)\<rparr>))
             [block_pl_at 50 140] = Some (block_pl_at 50 140)"
    by (simp add: pl_defs)
  have sp: "speed_pl (block_pl_at 50 140) > 0" "speed_pl (block_pl_at 50 140) = 3"
    by (simp_all add: pl_defs)
  have vp: "vy_pl ?q + GRAVITY \<le> 0" by (simp add: GRAVITY_def)
  have flp: "\<not> ry (player_rect_pl ?q) + rh (player_rect_pl ?q) + speed_pl (block_pl_at 50 140)
               > of_int (winH env600) - FLOOR_HEIGHT"
    by (simp add: pl_defs)
  from upward_contact_with_falling_block
         [where p="?p" and bs="[block_at 100 240]" and c="block_at 100 240" and q="?q"
            and ps="[block_pl_at 50 140]" and k="block_pl_at 50 140" and e=env600]
       f m v fl fp sp vp flp
  have "vy (Player_move_y env600 [block_at 100 240] ?p) = fallingSpeed \<and>
        grounded (Player_move_y env600 [block_at 100 240] ?p) = grounded ?p \<and>
        vy_pl (Player_pl_move_y env600 [block_pl_at 50 140] ?q) = 3 \<and>
        grounded_pl (Player_pl_move_y env600 [block_pl_at 50 140] ?q) = grounded_pl ?q"
    by simp
  moreover have "\<not> grounded ?p" "\<not> grounded_pl ?q"
    by (simp_all add: airbornePlayer_def Player_pl_new_def)
  ultimately show ?thesis using f m v fp sp vp
    by (simp add: standingPlayer_def Player_new_def airbornePlayer_def Player_pl_new_def)
qed

text \<open>
  Claim C10 as stated fails next to the floor. The player stands on the floor and jumps
  under a falling block: the move it proposes contacts the block with an upward velocity,
  yet the tick ends with the player grounded and its velocity zero, not the fall speed.
\<close>

theorem jump_under_block_near_floor_is_grounded:
  "Block_intersects (block_at 100 385)
     ((player_rect standingPlayer)\<lparr>ry := ry (player_rect standingPlayer) + (- jumpSpeed + gravity)\<rparr>) \<and>
   moving (block_at 100 385) \<and> - jumpSpeed + gravity \<le> 0 \<and>
   vy (player (Player_update env600 (noInput\<lparr>keyUp_down := True\<rparr>)
         (freshData\<lparr>player := standingPlayer, blocks := [block_at 100 385]\<rparr>))) = 0 \<and>
   grounded (player (Player_update env600 (noInput\<lparr>keyUp_down := True\<rparr>)
         (freshData\<lparr>player := standingPlayer, blocks := [block_at 100 385]\<rparr>)))"
  by (simp add: tick_defs block_defs Let_def)


section \<open>The scenes\<close>

text \<open>
  Claim C8, as amended. In the first version of Tapioca the restart key in the scene
  \<open>GameOver\<close> leads to \<open>Playing\<close>, and entering \<open>Playing\<close> sets the score to zero,
  replaces the player by a newly constructed one and empties the block vector; the high
  score is kept, and without the restart key the scene and the data stay as they are. In
  the second version no input leaves \<open>GameOver\<close>, and the constructor of \<open>Playing\<close>
  leaves the scores as they are; the scene it constructs has a newly constructed player
  and no blocks.
\<close>

theorem restart_resets_game:
  "Scene_update e inp lane (GameOver, d) =
     (if keyR_down inp then (Playing, d\<lparr>score := 0, player := Player_new e, blocks := []\<rparr>)
      else (GameOver, d)) \<and>
   GameOver_v2_update inp d2 = (GameOver, d2) \<and>
   Playing_v2_init d2 = (d2, \<lparr> player_v2 = Player_v2_new, blocks_v2 = [] \<rparr>)"
  by (simp add: Scene_update_def GameOver_update_def changeScene_def Playing_init_def
      GameOver_v2_update_def Playing_v2_init_def)

text \<open>
  An instance: a restart after a game of the first version that ended with 250 points.
\<close>

theorem restart_resets_game_witness:
  "Scene_update env600 (noInput\<lparr>keyR_down := True\<rparr>) None
     (GameOver, freshData\<lparr>score := 250, highScore := 250,
                          player := standingPlayer\<lparr>dead := True\<rparr>,
                          blocks := [block_at 100 406]\<rparr>) =
     (Playing, freshData\<lparr>highScore := 250\<rparr>) \<and>
   GameOver_v2_update (noInput\<lparr>keyR_down := True\<rparr>) \<lparr> score_v2 = 250, highScore_v2 = 250 \<rparr> =
     (GameOver, \<lparr> score_v2 = 250, highScore_v2 = 250 \<rparr>)"
  using restart_resets_game
          [of env600 "noInput\<lparr>keyR_down := True\<rparr>" None
              "freshData\<lparr>score := 250, highScore := 250,
                         player := standingPlayer\<lparr>dead := True\<rparr>,
                         blocks := [block_at 100 406]\<rparr>"
              "\<lparr> score_v2 = 250, highScore_v2 = 250 \<rparr>"]
  by (simp add: noInput_def freshData_def)

text \<open>
  Claim C8 as stated fails in the second version, whose constructor of \<open>Playing\<close> the
  claim cites: after a game that ended with 250 points the restart key is held down, the
  scene stays \<open>GameOver\<close>, and constructing \<open>Playing\<close> would leave the score at 250.
\<close>

theorem second_version_has_no_restart:
  "keyR_down (noInput\<lparr>keyR_down := True\<rparr>) \<and>
   fst (GameOver_v2_update (noInput\<lparr>keyR_down := True\<rparr>) \<lparr> score_v2 = 250, highScore_v2 = 250 \<rparr>)
     = GameOver \<and>
   score_v2 (fst (Playing_v2_init \<lparr> score_v2 = 250, highScore_v2 = 250 \<rparr>)) = 250"
  by (simp add: noInput_def GameOver_v2_update_def Playing_v2_init_def)

end
